theory Spec2Isabelle
  imports Main "HOL-Library.AList" "HOL-Library.Multiset" "HOL-Library.Log_Nat"
begin

section \<open>Data model\<close>

text \<open>
  A JavaScript string is a sequence of UTF-16 code units; a code unit is modelled as a
  natural number, so that the whitespace and line-terminator classes of the regular
  expressions of the script parser can be written with their code points.
\<close>

type_synonym jsstring = "nat list"

subsection \<open>Numbers\<close>

text \<open>
  A value of type \<^verbatim>\<open>number\<close> is a double. The data model of the specification declares
  deltas, variables, versions and timestamps to be integers, so the model holds the doubles
  with integer values, the two infinities and \<^verbatim>\<open>NaN\<close>. \<open>Fin k\<close> stands for the double
  of value \<open>k\<close>; the two zeros, which no operation of the program tells apart, are both
  \<open>Fin 0\<close>.

  Every integer of magnitude up to \<open>2 ^ 53\<close> is a double. A greater magnitude \<open>m\<close> with
  \<open>n\<close> binary digits is rounded to a multiple of \<open>2 ^ (n - 53)\<close>: to the nearest one, and
  of two nearest ones to the even multiple.
\<close>

definition round53 :: "int \<Rightarrow> int" where
  "round53 k =
     (if \<bar>k\<bar> < 2 ^ 53 then k
      else (let s = nat (bitlen \<bar>k\<bar> - 53);
                q = \<bar>k\<bar> div 2 ^ s;
                r = \<bar>k\<bar> mod 2 ^ s;
                q' = (if 2 * r > 2 ^ s \<or> (2 * r = 2 ^ s \<and> odd q) then q + 1 else q)
            in sgn k * (q' * 2 ^ s)))"

text \<open>
  The sum \<^verbatim>\<open>a + b\<close> of two doubles with integer values, before the test for overflow:
  the exact sum, rounded.
\<close>

definition double_sum :: "int \<Rightarrow> int \<Rightarrow> int" where
  "double_sum a b = round53 (a + b)"

datatype number = Fin int | PosInf | NegInf | NaN

text \<open>A rounded result of magnitude \<open>2 ^ 1024\<close> or more is an infinity.\<close>

definition overflow :: "int \<Rightarrow> number" where
  "overflow k =
     (if k \<ge> 2 ^ 1024 then PosInf else if k \<le> - (2 ^ 1024) then NegInf else Fin k)"

text \<open>\<^verbatim>\<open>x + y\<close> for two numbers.\<close>

fun num_add :: "number \<Rightarrow> number \<Rightarrow> number" where
  "num_add (Fin a) (Fin b) = overflow (double_sum a b)"
| "num_add NaN y = NaN"
| "num_add x NaN = NaN"
| "num_add PosInf NegInf = NaN"
| "num_add NegInf PosInf = NaN"
| "num_add PosInf y = PosInf"
| "num_add NegInf y = NegInf"
| "num_add x PosInf = PosInf"
| "num_add x NegInf = NegInf"

subsection \<open>Objects that map names to numbers\<close>

text \<open>
  An object of type \<^verbatim>\<open>Record<string, number>\<close> is modelled as the list of its own
  properties: \<open>map_of\<close> reads an own property, \<^verbatim>\<open>Object.entries\<close> is the list itself and
  the spread copy \<^verbatim>\<open>{ ...vars }\<close> is the identity. The order of the list is the order of
  insertion; the program's results below depend on the order of the effects only, which is
  the order of the list given.

  Such an object inherits the members of \<^verbatim>\<open>Object.prototype\<close>. Reading a name that the
  object does not own gives the inherited member, when the name is one of these:
\<close>

definition is_proto_member :: "jsstring \<Rightarrow> bool" where
  "is_proto_member k =
     (k \<in> set
       [[99, 111, 110, 115, 116, 114, 117, 99, 116, 111, 114],
        [95, 95, 100, 101, 102, 105, 110, 101, 71, 101, 116, 116, 101, 114, 95, 95],
        [95, 95, 100, 101, 102, 105, 110, 101, 83, 101, 116, 116, 101, 114, 95, 95],
        [104, 97, 115, 79, 119, 110, 80, 114, 111, 112, 101, 114, 116, 121],
        [95, 95, 108, 111, 111, 107, 117, 112, 71, 101, 116, 116, 101, 114, 95, 95],
        [95, 95, 108, 111, 111, 107, 117, 112, 83, 101, 116, 116, 101, 114, 95, 95],
        [105, 115, 80, 114, 111, 116, 111, 116, 121, 112, 101, 79, 102],
        [112, 114, 111, 112, 101, 114, 116, 121, 73, 115, 69, 110, 117, 109, 101, 114, 97,
         98, 108, 101],
        [116, 111, 83, 116, 114, 105, 110, 103],
        [118, 97, 108, 117, 101, 79, 102],
        [95, 95, 112, 114, 111, 116, 111, 95, 95],
        [116, 111, 76, 111, 99, 97, 108, 101, 83, 116, 114, 105, 110, 103]])"

text \<open>
  The names are \<^verbatim>\<open>constructor\<close>, \<^verbatim>\<open>__defineGetter__\<close>, \<^verbatim>\<open>__defineSetter__\<close>,
  \<^verbatim>\<open>hasOwnProperty\<close>, \<^verbatim>\<open>__lookupGetter__\<close>, \<^verbatim>\<open>__lookupSetter__\<close>,
  \<^verbatim>\<open>isPrototypeOf\<close>, \<^verbatim>\<open>propertyIsEnumerable\<close>, \<^verbatim>\<open>toString\<close>, \<^verbatim>\<open>valueOf\<close>,
  \<^verbatim>\<open>__proto__\<close> and \<^verbatim>\<open>toLocaleString\<close>. All are functions but \<^verbatim>\<open>__proto__\<close>, an
  accessor whose getter returns \<^verbatim>\<open>Object.prototype\<close> itself.

  Added to a number, an inherited member gives a string: its text followed by the text of
  the number. So a variable can come to hold a string. A string is modelled as the list of
  the texts that were joined, the text of a member or the text of a number; two strings
  with the same list are the same string.
\<close>

datatype piece = MemberText jsstring | NumberText number

datatype jsvalue = Num number | Str "piece list"

text \<open>The effects of a choice hold numbers; the variables hold what the program stores.\<close>

type_synonym numrecord = "(jsstring \<times> number) list"

type_synonym ledger = "(jsstring \<times> jsvalue) list"

text \<open>
  The left operand of the sum in \<^verbatim>\<open>(next[k] ?? 0) + v\<close>: the own property; else the
  text of the inherited member, which is neither \<^verbatim>\<open>null\<close> nor \<^verbatim>\<open>undefined\<close>; else
  \<open>0\<close>.
\<close>

definition read_or_zero :: "ledger \<Rightarrow> jsstring \<Rightarrow> jsvalue" where
  "read_or_zero nxt k =
     (case map_of nxt k of
        Some x \<Rightarrow> x
      | None \<Rightarrow> if is_proto_member k then Str [MemberText k] else Num (Fin 0))"

text \<open>\<^verbatim>\<open>x + v\<close> for a number \<open>v\<close>: the sum of two numbers, or a string followed by the text of \<open>v\<close>.\<close>

fun plus_number :: "jsvalue \<Rightarrow> number \<Rightarrow> jsvalue" where
  "plus_number (Num a) v = Num (num_add a v)"
| "plus_number (Str ps) v = Str (ps @ [NumberText v])"

text \<open>
  \<^verbatim>\<open>obj[k] = x\<close> for a number or a string \<open>x\<close>: an own property is overwritten in place;
  a new one is appended, except that the name \<^verbatim>\<open>__proto__\<close>, when the object does not own
  it, reaches the setter of \<^verbatim>\<open>Object.prototype\<close>, which ignores a value that is neither
  an object nor \<^verbatim>\<open>null\<close>.
\<close>

definition assign :: "jsstring \<Rightarrow> 'v \<Rightarrow> (jsstring \<times> 'v) list \<Rightarrow> (jsstring \<times> 'v) list" where
  "assign k x obj =
     (if k = [95, 95, 112, 114, 111, 116, 111, 95, 95] \<and> map_of obj k = None then obj
      else AList.update k x obj)"

subsection \<open>Scenario, session state and messages\<close>

datatype turn = P1 | P2

record choice =
  c_text :: jsstring
  c_next :: jsstring
  c_effects :: "numrecord option"

datatype scene =
    Scene (scene_id: jsstring) (scene_body: "jsstring list") (scene_choices: "choice list")
  | Ending (scene_id: jsstring) (ending_title: jsstring) (scene_body: "jsstring list")

record scenario =
  title :: jsstring
  start :: jsstring
  scenes :: "scene list"

record shared_state =
  sceneId :: jsstring
  vars :: ledger
  turn :: turn
  version :: int

record message =
  m_id :: jsstring
  m_role :: turn
  m_name :: jsstring
  m_sceneId :: jsstring
  m_choiceText :: jsstring
  m_text :: jsstring
  m_ts :: int
  m_edited :: "bool option"

section \<open>The effect ledger\<close>

text \<open>
  \<^verbatim>\<open>next[k] = (next[k] ?? 0) + v\<close>: one iteration of the loop of \<^verbatim>\<open>applyEffects\<close>.
\<close>

definition add_effect :: "jsstring \<times> number \<Rightarrow> ledger \<Rightarrow> ledger" where
  "add_effect kv nxt =
     assign (fst kv) (plus_number (read_or_zero nxt (fst kv)) (snd kv)) nxt"

text \<open>
  \<^verbatim>\<open>
  function applyEffects(vars, effects?) {
    if (!effects) return vars;
    const next = { ...vars };
    for (const [k, v] of Object.entries(effects)) next[k] = (next[k] ?? 0) + v;
    return next;
  }
  \<close>
\<close>

fun applyEffects :: "ledger \<Rightarrow> numrecord option \<Rightarrow> ledger" where
  "applyEffects vs None = vs"
| "applyEffects vs (Some effects) = fold add_effect effects vs"

text \<open>The entries of an optional effects object (none when it is absent).\<close>

fun entries :: "numrecord option \<Rightarrow> numrecord" where
  "entries None = []"
| "entries (Some es) = es"

text \<open>Applying a sequence of effect maps, one after the other.\<close>

definition apply_all :: "ledger \<Rightarrow> numrecord option list \<Rightarrow> ledger" where
  "apply_all vs es = foldl applyEffects vs es"

text \<open>
  The integer that a variable holds, \<open>0\<close> for a variable that is absent; none when it holds
  an infinity, \<^verbatim>\<open>NaN\<close> or a string.
\<close>

definition int_at :: "ledger \<Rightarrow> jsstring \<Rightarrow> int option" where
  "int_at r k =
     (case map_of r k of
        None \<Rightarrow> Some 0
      | Some (Num (Fin a)) \<Rightarrow> Some a
      | Some other \<Rightarrow> None)"

text \<open>The integer of a finite delta.\<close>

fun delta_int :: "number \<Rightarrow> int" where
  "delta_int (Fin b) = b"
| "delta_int x = 0"

fun is_fin :: "number \<Rightarrow> bool" where
  "is_fin (Fin b) = True"
| "is_fin x = False"

text \<open>
  For one key: the sum of the deltas that a list of entries carries, and the sum of their
  magnitudes.
\<close>

definition total_delta :: "numrecord \<Rightarrow> jsstring \<Rightarrow> int" where
  "total_delta es k = sum_list (map (\<lambda>e. delta_int (snd e)) (filter (\<lambda>e. fst e = k) es))"

definition total_abs :: "numrecord \<Rightarrow> jsstring \<Rightarrow> int" where
  "total_abs es k = sum_list (map (\<lambda>e. \<bar>delta_int (snd e)\<bar>) (filter (\<lambda>e. fst e = k) es))"

text \<open>The same for a whole sequence of effect maps, with the keys that they name.\<close>

definition all_keys :: "numrecord option list \<Rightarrow> jsstring set" where
  "all_keys es = (\<Union>eo \<in> set es. fst ` set (entries eo))"

definition all_delta :: "numrecord option list \<Rightarrow> jsstring \<Rightarrow> int" where
  "all_delta es k = sum_list (map (\<lambda>eo. total_delta (entries eo) k) es)"

definition all_abs :: "numrecord option list \<Rightarrow> jsstring \<Rightarrow> int" where
  "all_abs es k = sum_list (map (\<lambda>eo. total_abs (entries eo) k) es)"

text \<open>All deltas of a sequence of effect maps are finite.\<close>

definition all_fin :: "numrecord option list \<Rightarrow> bool" where
  "all_fin es = list_all (\<lambda>eo. list_all (\<lambda>e. is_fin (snd e)) (entries eo)) es"

text \<open>
  A condition under which every sum that applying the effect maps forms, in whatever order
  they are applied, is exact: all deltas are finite, and every key that the effect maps
  name is no name of a member of \<^verbatim>\<open>Object.prototype\<close> and holds an integer whose
  magnitude, added to the magnitudes of all the deltas for the key, is at most \<open>2 ^ 53\<close>.
\<close>

definition exact_sums :: "ledger \<Rightarrow> numrecord option list \<Rightarrow> bool" where
  "exact_sums vs es =
     (all_fin es \<and>
      (\<forall>k \<in> all_keys es. \<not> is_proto_member k \<and>
         (case int_at vs k of None \<Rightarrow> False | Some a \<Rightarrow> \<bar>a\<bar> + all_abs es k \<le> 2 ^ 53)))"

section \<open>Strings\<close>

text \<open>
  The code units that \<^verbatim>\<open>\s\<close> matches and that \<^verbatim>\<open>trim\<close> strips: tab, line feed,
  vertical tab, form feed, carriage return, space, no-break space, U+1680, U+2000 to U+200A,
  U+2028, U+2029, U+202F, U+205F, U+3000 and U+FEFF.
\<close>

definition is_space :: "nat \<Rightarrow> bool" where
  "is_space c =
     (c = 9 \<or> c = 10 \<or> c = 11 \<or> c = 12 \<or> c = 13 \<or> c = 32 \<or> c = 160 \<or> c = 5760
      \<or> (8192 \<le> c \<and> c \<le> 8202) \<or> c = 8232 \<or> c = 8233 \<or> c = 8239 \<or> c = 8287
      \<or> c = 12288 \<or> c = 65279)"

text \<open>\<^verbatim>\<open>s.trim()\<close>\<close>

definition trim :: "jsstring \<Rightarrow> jsstring" where
  "trim s = rev (dropWhile is_space (rev (dropWhile is_space s)))"

text \<open>\<^verbatim>\<open>s.startsWith(p)\<close>\<close>

fun starts_with :: "jsstring \<Rightarrow> jsstring \<Rightarrow> bool" where
  "starts_with s [] = True"
| "starts_with [] (p # ps) = False"
| "starts_with (c # cs) (p # ps) = (c = p \<and> starts_with cs ps)"

text \<open>\<^verbatim>\<open>s.includes(p)\<close>\<close>

fun includes_str :: "jsstring \<Rightarrow> jsstring \<Rightarrow> bool" where
  "includes_str [] p = starts_with [] p"
| "includes_str (c # cs) p = (starts_with (c # cs) p \<or> includes_str cs p)"

text \<open>The strings \<^verbatim>\<open>"P1"\<close> and \<^verbatim>\<open>"P2"\<close> of the roles.\<close>

fun role_name :: "turn \<Rightarrow> jsstring" where
  "role_name P1 = [80, 49]"
| "role_name P2 = [80, 50]"

section \<open>The room client\<close>

text \<open>
  The four broadcast events of a room channel with their payloads:
  \<^verbatim>\<open>state:update\<close>, \<^verbatim>\<open>state:request\<close> (payload \<^verbatim>\<open>{ ask: role }\<close>),
  \<^verbatim>\<open>msg:add\<close> and \<^verbatim>\<open>msg:update\<close>.
\<close>

datatype broadcast =
    StateUpdate shared_state
  | StateRequest turn
  | MsgAdd message
  | MsgUpdate message

text \<open>
  What a handler does to the outside: a broadcast sent on the channel, the presence
  record tracked on subscription, the alert and the redirect to the lobby of a duplicate
  first player.
\<close>

datatype effect = Send broadcast | Track jsstring | Alert | RouterReplace

text \<open>
  The state of the component \<^verbatim>\<open>DuoRoom\<close>: its React state variables and its refs.
  \<open>channelRef\<close> tells whether \<^verbatim>\<open>channelRef.current\<close> holds a channel, \<open>redirectedRef\<close> is
  the latch of the duplicate check, and \<open>debounceTimer\<close> holds the labels that the pending
  timer will store in \<open>peers\<close>.
\<close>

record client =
  role :: turn
  displayName :: jsstring
  scenario :: "scenario option"
  shared :: "shared_state option"
  sharedRef :: "shared_state option"
  loading :: bool
  peers :: "jsstring list"
  logs :: "message list"
  composerChoice :: "choice option"
  composerText :: jsstring
  editingId :: "jsstring option"
  editingText :: jsstring
  channelRef :: bool
  redirectedRef :: bool
  debounceTimer :: "jsstring list option"

text \<open>\<^verbatim>\<open>channelRef.current?.send({ type: "broadcast", ... })\<close>\<close>

definition send_via_ref :: "client \<Rightarrow> broadcast \<Rightarrow> effect list" where
  "send_via_ref c b = (if channelRef c then [Send b] else [])"

subsection \<open>Handlers of received broadcasts\<close>

text \<open>
  \<^verbatim>\<open>setShared(prev => (!prev || incoming.version > prev.version ? incoming : prev))\<close>
\<close>

definition adopt :: "shared_state option \<Rightarrow> shared_state \<Rightarrow> shared_state option" where
  "adopt prev incoming =
     (case prev of
        None \<Rightarrow> Some incoming
      | Some p \<Rightarrow> if version incoming > version p then Some incoming else Some p)"

definition on_state_update :: "shared_state \<Rightarrow> client \<Rightarrow> client \<times> effect list" where
  "on_state_update incoming c = (c\<lparr>shared := adopt (shared c) incoming\<rparr>, [])"

text \<open>
  \<^verbatim>\<open>const cur = sharedRef.current;
  if (cur) channel.send({ type: "broadcast", event: "state:update", payload: cur });\<close>
\<close>

definition on_state_request :: "client \<Rightarrow> client \<times> effect list" where
  "on_state_request c =
     (case sharedRef c of None \<Rightarrow> (c, []) | Some cur \<Rightarrow> (c, [Send (StateUpdate cur)]))"

text \<open>
  \<^verbatim>\<open>[...prev, m].sort((a, b) => a.ts - b.ts)\<close>: the sort of an array is stable, so
  with this comparator the result is the stable sort by \<^verbatim>\<open>ts\<close>.
\<close>

definition append_sorted :: "message list \<Rightarrow> message \<Rightarrow> message list" where
  "append_sorted prev m = sort_key m_ts (prev @ [m])"

text \<open>
  \<^verbatim>\<open>setLogs(prev => (prev.some(x => x.id === m.id) ? prev
      : [...prev, m].sort((a, b) => a.ts - b.ts)))\<close>
\<close>

definition merge_add :: "message list \<Rightarrow> message \<Rightarrow> message list" where
  "merge_add prev m =
     (if list_ex (\<lambda>x. m_id x = m_id m) prev then prev else append_sorted prev m)"

definition on_msg_add :: "message \<Rightarrow> client \<Rightarrow> client \<times> effect list" where
  "on_msg_add m c = (c\<lparr>logs := merge_add (logs c) m\<rparr>, [])"

text \<open>
  \<^verbatim>\<open>setLogs(prev => prev.map(x => (x.id === m.id ? { ...m, edited: true } : x)))\<close>
\<close>

definition merge_update :: "message list \<Rightarrow> message \<Rightarrow> message list" where
  "merge_update prev m =
     map (\<lambda>x. if m_id x = m_id m then m\<lparr>m_edited := Some True\<rparr> else x) prev"

definition on_msg_update :: "message \<Rightarrow> client \<Rightarrow> client \<times> effect list" where
  "on_msg_update m c = (c\<lparr>logs := merge_update (logs c) m\<rparr>, [])"

subsection \<open>Subscription and presence\<close>

text \<open>
  The callback of \<^verbatim>\<open>channel.subscribe\<close>. The channel, and with it this callback, exists
  only once a scenario is loaded; the callback reads the scenario of its closure.
\<close>

definition on_subscribed :: "bool \<Rightarrow> client \<Rightarrow> client \<times> effect list" where
  "on_subscribed subscribed c =
     (case scenario c of
        None \<Rightarrow> (c, [])
      | Some sc \<Rightarrow>
          if \<not> subscribed then (c, [])
          else if role c = P1 then
            (case sharedRef c of
               None \<Rightarrow>
                 (let init = \<lparr>sceneId = start sc, vars = [], turn = P1, version = 1\<rparr>
                  in (c\<lparr>shared := Some init\<rparr>,
                      [Track (displayName c), Send (StateUpdate init)]))
             | Some cur \<Rightarrow> (c, [Track (displayName c), Send (StateUpdate cur)]))
          else (c, [Track (displayName c), Send (StateRequest (role c))]))"

text \<open>
  The presence state of the channel: for each presence key the list of the connected
  identities, each with its optional name.
\<close>

type_synonym presence = "(jsstring \<times> jsstring option list) list"

text \<open>
  \<^verbatim>\<open>const n = arr[0]?.name?.trim(); return n ? `${n}(${r})` : r;\<close>
\<close>

definition peer_label :: "jsstring \<times> jsstring option list \<Rightarrow> jsstring" where
  "peer_label e =
     (case snd e of
        [] \<Rightarrow> fst e
      | None # _ \<Rightarrow> fst e
      | Some n # _ \<Rightarrow> if trim n = [] then fst e else trim n @ [40] @ fst e @ [41])"

definition on_presence_sync :: "presence \<Rightarrow> client \<Rightarrow> client \<times> effect list" where
  "on_presence_sync st c =
     (let p1Count = (case map_of st (role_name P1) of None \<Rightarrow> 0 | Some arr \<Rightarrow> length arr)
      in if role c = P1 \<and> p1Count > 1 \<and> \<not> redirectedRef c
         then (c\<lparr>redirectedRef := True\<rparr>, [Alert, RouterReplace])
         else (c\<lparr>debounceTimer := Some (map peer_label st)\<rparr>, []))"

text \<open>The debounce timer fires: \<^verbatim>\<open>setPeers(labels)\<close>.\<close>

definition on_debounce :: "client \<Rightarrow> client \<times> effect list" where
  "on_debounce c =
     (case debounceTimer c of
        None \<Rightarrow> (c, [])
      | Some labels \<Rightarrow> (c\<lparr>peers := labels, debounceTimer := None\<rparr>, []))"

text \<open>The effect \<^verbatim>\<open>sharedRef.current = shared\<close>, run after a render that changed \<open>shared\<close>.\<close>

definition on_render :: "client \<Rightarrow> client \<times> effect list" where
  "on_render c = (c\<lparr>sharedRef := shared c\<rparr>, [])"

text \<open>
  The scenario loader stores a validated scenario and ends the loading phase; the
  connection effect then creates the channel.
\<close>

definition on_scenario_loaded :: "scenario \<Rightarrow> client \<Rightarrow> client \<times> effect list" where
  "on_scenario_loaded sc c = (c\<lparr>scenario := Some sc, loading := False, channelRef := True\<rparr>, [])"

subsection \<open>Derived values and render gates\<close>

text \<open>\<^verbatim>\<open>scenario?.scenes.find(s => s.id === shared?.sceneId)\<close>\<close>

definition currentScene :: "client \<Rightarrow> scene option" where
  "currentScene c =
     (case (scenario c, shared c) of
        (Some sc, Some sh) \<Rightarrow> find (\<lambda>s. scene_id s = sceneId sh) (scenes sc)
      | _ \<Rightarrow> None)"

text \<open>\<^verbatim>\<open>shared?.turn === role\<close>\<close>

definition isMyTurn :: "client \<Rightarrow> bool" where
  "isMyTurn c = (case shared c of None \<Rightarrow> False | Some sh \<Rightarrow> turn sh = role c)"

text \<open>
  \<^verbatim>\<open>peers.some(p => p.includes("(P1)")) && peers.some(p => p.includes("(P2)"))\<close>
\<close>

definition bothPlayersConnected :: "client \<Rightarrow> bool" where
  "bothPlayersConnected c =
     (list_ex (\<lambda>p. includes_str p ([40] @ role_name P1 @ [41])) (peers c)
      \<and> list_ex (\<lambda>p. includes_str p ([40] @ role_name P2 @ [41])) (peers c))"

text \<open>
  The room is rendered only past the waiting screen of the first player and past the
  loading screen.
\<close>

definition room_rendered :: "client \<Rightarrow> bool" where
  "room_rendered c =
     (\<not> (role c = P1 \<and> \<not> bothPlayersConnected c)
      \<and> \<not> loading c \<and> scenario c \<noteq> None \<and> shared c \<noteq> None \<and> currentScene c \<noteq> None)"

text \<open>The restart button is part of the rendering of an ending.\<close>

definition restart_rendered :: "client \<Rightarrow> bool" where
  "restart_rendered c =
     (room_rendered c \<and> (case currentScene c of Some (Ending _ _ _) \<Rightarrow> True | _ \<Rightarrow> False))"

subsection \<open>User actions\<close>

definition openComposer :: "choice \<Rightarrow> client \<Rightarrow> client \<times> effect list" where
  "openComposer ch c =
     (if \<not> isMyTurn c then (c, [])
      else (c\<lparr>composerChoice := Some ch, composerText := []\<rparr>, []))"

definition cancelComposer :: "client \<Rightarrow> client" where
  "cancelComposer c = c\<lparr>composerChoice := None, composerText := []\<rparr>"

text \<open>
  \<^verbatim>\<open>sendNarrativeAndAdvance\<close>; the identifier made by \<^verbatim>\<open>genId()\<close> and the time read by
  \<^verbatim>\<open>Date.now()\<close> are parameters.
\<close>

definition sendNarrativeAndAdvance :: "jsstring \<Rightarrow> int \<Rightarrow> client \<Rightarrow> client \<times> effect list" where
  "sendNarrativeAndAdvance newId now c =
     (case shared c of
        None \<Rightarrow> (c, [])
      | Some sh \<Rightarrow>
     (case scenario c of
        None \<Rightarrow> (c, [])
      | Some sc \<Rightarrow>
     (case composerChoice c of
        None \<Rightarrow> (c, [])
      | Some ch \<Rightarrow>
          (let msg = \<lparr>m_id = newId, m_role = role c, m_name = displayName c,
                      m_sceneId = sceneId sh, m_choiceText = c_text ch,
                      m_text = trim (composerText c), m_ts = now, m_edited = None\<rparr>;
               logs' = (if m_text msg \<noteq> [] then append_sorted (logs c) msg else logs c);
               out1 = (if m_text msg \<noteq> [] then send_via_ref c (MsgAdd msg) else []);
               nxt = \<lparr>sceneId = c_next ch,
                      vars = applyEffects (vars sh) (c_effects ch),
                      turn = (if turn sh = P1 then P2 else P1),
                      version = double_sum (version sh) 1\<rparr>
           in (cancelComposer (c\<lparr>logs := logs', shared := Some nxt, sharedRef := Some nxt\<rparr>),
               out1 @ send_via_ref c (StateUpdate nxt))))))"

definition startEditMessage :: "jsstring \<Rightarrow> client \<Rightarrow> client \<times> effect list" where
  "startEditMessage i c =
     (c\<lparr>editingId := Some i,
        editingText := (case find (\<lambda>x. m_id x = i) (logs c) of
                          None \<Rightarrow> [] | Some m \<Rightarrow> m_text m)\<rparr>, [])"

text \<open>
  \<^verbatim>\<open>saveEditMessage\<close>; \<^verbatim>\<open>if (!editingId) return\<close> returns for \<^verbatim>\<open>null\<close> and for the
  empty string.
\<close>

definition saveEditMessage :: "client \<Rightarrow> client \<times> effect list" where
  "saveEditMessage c =
     (case editingId c of
        None \<Rightarrow> (c, [])
      | Some i \<Rightarrow>
          if i = [] then (c, [])
          else (case find (\<lambda>x. m_id x = i) (logs c) of
                  None \<Rightarrow> (c, [])
                | Some original \<Rightarrow>
                    (let updated = original\<lparr>m_text := editingText c, m_edited := Some True\<rparr>
                     in (c\<lparr>logs := map (\<lambda>x. if m_id x = m_id updated then updated else x) (logs c),
                           editingId := None, editingText := []\<rparr>,
                         send_via_ref c (MsgUpdate updated)))))"

text \<open>
  The click handler of the restart button of an ending:
  \<^verbatim>\<open>
  const next = { sceneId: scenario.start, vars: {}, turn: "P1",
                 version: (shared?.version ?? 0) + 1 };
  setShared(next); sharedRef.current = next;
  channelRef.current?.send({ type: "broadcast", event: "state:update", payload: next });
  \<close>
  The button exists only when a scenario is loaded.
\<close>

definition restart :: "client \<Rightarrow> client \<times> effect list" where
  "restart c =
     (case scenario c of
        None \<Rightarrow> (c, [])
      | Some sc \<Rightarrow>
          (let nxt = \<lparr>sceneId = start sc, vars = [], turn = P1,
                      version =
                        double_sum (case shared c of None \<Rightarrow> 0 | Some sh \<Rightarrow> version sh) 1\<rparr>
           in (c\<lparr>shared := Some nxt, sharedRef := Some nxt\<rparr>, send_via_ref c (StateUpdate nxt))))"

subsection \<open>The transitions of a client\<close>

text \<open>The actions that the user of a client starts.\<close>

datatype action =
    OpenComposer choice
  | CancelComposer
  | SetComposerText jsstring
  | SendNarrativeAndAdvance jsstring int
  | StartEditMessage jsstring
  | SetEditingText jsstring
  | CancelEdit
  | SaveEditMessage
  | Restart

fun act :: "action \<Rightarrow> client \<Rightarrow> client \<times> effect list" where
  "act (OpenComposer ch) c = openComposer ch c"
| "act CancelComposer c = (cancelComposer c, [])"
| "act (SetComposerText t) c = (c\<lparr>composerText := t\<rparr>, [])"
| "act (SendNarrativeAndAdvance newId now) c = sendNarrativeAndAdvance newId now c"
| "act (StartEditMessage i) c = startEditMessage i c"
| "act (SetEditingText t) c = (c\<lparr>editingText := t\<rparr>, [])"
| "act CancelEdit c = (c\<lparr>editingId := None\<rparr>, [])"
| "act SaveEditMessage c = saveEditMessage c"
| "act Restart c = restart c"

text \<open>The callbacks that the transport, the timer and React start.\<close>

datatype callback =
    Received broadcast
  | Subscribed bool
  | PresenceSync presence
  | DebounceFired
  | Rendered
  | ScenarioLoaded scenario

fun handle :: "callback \<Rightarrow> client \<Rightarrow> client \<times> effect list" where
  "handle (Received (StateUpdate incoming)) c = on_state_update incoming c"
| "handle (Received (StateRequest r)) c = on_state_request c"
| "handle (Received (MsgAdd m)) c = on_msg_add m c"
| "handle (Received (MsgUpdate m)) c = on_msg_update m c"
| "handle (Subscribed ok) c = on_subscribed ok c"
| "handle (PresenceSync st) c = on_presence_sync st c"
| "handle DebounceFired c = on_debounce c"
| "handle Rendered c = on_render c"
| "handle (ScenarioLoaded sc) c = on_scenario_loaded sc c"

text \<open>The version of the local session state; none while the client holds no state.\<close>

definition local_version :: "client \<Rightarrow> int option" where
  "local_version c = map_option version (shared c)"

section \<open>Validation of scenario documents\<close>

text \<open>
  The value that \<^verbatim>\<open>JSON.parse\<close> returns, or that the script parser builds. An object is
  the list of its own properties; a property read of a key that it does not hold gives
  \<^verbatim>\<open>undefined\<close>, modelled by \<open>None\<close>. Validation never looks into a number.
\<close>

datatype json =
    JNull
  | JBool bool
  | JNum number
  | JStr jsstring
  | JArr "json list"
  | JObj "(jsstring \<times> json) list"

text \<open>
  The errors of validation: the five messages of \<^verbatim>\<open>validateScenario\<close>, and the
  \<^verbatim>\<open>TypeError\<close> of reading a property of \<^verbatim>\<open>null\<close>.
\<close>

datatype error =
    NotJson
  | TitleMissing
  | StartMissing
  | ScenesMissing
  | NoStartScene
  | TypeError

text \<open>\<^verbatim>\<open>v[k]\<close> for a value \<open>v\<close> that is not \<^verbatim>\<open>null\<close> and a key that no prototype holds.\<close>

fun get_prop :: "json \<Rightarrow> jsstring \<Rightarrow> json option" where
  "get_prop (JObj kvs) k = map_of kvs k"
| "get_prop v k = None"

text \<open>\<^verbatim>\<open>!data || typeof data !== "object"\<close> is false for objects and arrays only.\<close>

fun is_object :: "json \<Rightarrow> bool" where
  "is_object (JObj kvs) = True"
| "is_object (JArr vs) = True"
| "is_object v = False"

text \<open>\<^verbatim>\<open>typeof v === "string"\<close> and \<^verbatim>\<open>Array.isArray(v)\<close> for the result of a property read.\<close>

fun is_string :: "json option \<Rightarrow> bool" where
  "is_string (Some (JStr t)) = True"
| "is_string v = False"

fun is_array :: "json option \<Rightarrow> bool" where
  "is_array (Some (JArr vs)) = True"
| "is_array v = False"

text \<open>
  The validator of the room loader:
  \<^verbatim>\<open>
  if (!data || typeof data !== "object") throw new Error(...);
  if (typeof data.title !== "string") throw new Error(...);
  if (typeof data.start !== "string") throw new Error(...);
  if (!Array.isArray(data.scenes)) throw new Error(...);
  \<close>
  The keys are \<^verbatim>\<open>"title"\<close>, \<^verbatim>\<open>"start"\<close> and \<^verbatim>\<open>"scenes"\<close>.
\<close>

definition validateScenario_room :: "json \<Rightarrow> error + unit" where
  "validateScenario_room data =
     (if \<not> is_object data then Inl NotJson
      else if \<not> is_string (get_prop data [116, 105, 116, 108, 101]) then Inl TitleMissing
      else if \<not> is_string (get_prop data [115, 116, 97, 114, 116]) then Inl StartMissing
      else if \<not> is_array (get_prop data [115, 99, 101, 110, 101, 115]) then Inl ScenesMissing
      else Inr ())"

text \<open>
  \<^verbatim>\<open>scenes.some((s) => s.id === start)\<close>: the elements are visited in order up to the
  first match; reading \<^verbatim>\<open>id\<close> of \<^verbatim>\<open>null\<close> throws.
\<close>

fun some_id :: "json list \<Rightarrow> json \<Rightarrow> error + bool" where
  "some_id [] v = Inr False"
| "some_id (JNull # ss) v = Inl TypeError"
| "some_id (s # ss) v = (if get_prop s [105, 100] = Some v then Inr True else some_id ss v)"

text \<open>
  The validator of the single-player page and of the lobby: the four checks above, then
  \<^verbatim>\<open>
  if (!data.scenes.some((s: any) => s.id === data.start)) throw new Error(...);
  \<close>
\<close>

definition validateScenario :: "json \<Rightarrow> error + unit" where
  "validateScenario data =
     (case validateScenario_room data of
        Inl e \<Rightarrow> Inl e
      | Inr u \<Rightarrow>
          (case (get_prop data [115, 99, 101, 110, 101, 115], get_prop data [115, 116, 97, 114, 116]) of
             (Some (JArr ss), Some st) \<Rightarrow>
               (case some_id ss st of
                  Inl e \<Rightarrow> Inl e
                | Inr found \<Rightarrow> if found then Inr () else Inl NoStartScene)
           | other \<Rightarrow> Inl ScenesMissing))"

text \<open>The object that the script parser builds for a choice, a scene and a scenario.\<close>

definition choice_json :: "choice \<Rightarrow> json" where
  "choice_json ch =
     JObj ([([116, 101, 120, 116], JStr (c_text ch)), ([110, 101, 120, 116], JStr (c_next ch))]
           @ (case c_effects ch of
                None \<Rightarrow> []
              | Some es \<Rightarrow> [([101, 102, 102, 101, 99, 116, 115], JObj (map (\<lambda>e. (fst e, JNum (snd e))) es))]))"

fun scene_json :: "scene \<Rightarrow> json" where
  "scene_json (Scene i b chs) =
     JObj [([105, 100], JStr i), ([107, 105, 110, 100], JStr [115, 99, 101, 110, 101]),
           ([98, 111, 100, 121], JArr (map JStr b)),
           ([99, 104, 111, 105, 99, 101, 115], JArr (map choice_json chs))]"
| "scene_json (Ending i t b) =
     JObj [([105, 100], JStr i), ([107, 105, 110, 100], JStr [101, 110, 100, 105, 110, 103]),
           ([116, 105, 116, 108, 101], JStr t), ([98, 111, 100, 121], JArr (map JStr b))]"

definition scenario_json :: "scenario \<Rightarrow> json" where
  "scenario_json sc =
     JObj [([116, 105, 116, 108, 101], JStr (title sc)), ([115, 116, 97, 114, 116], JStr (start sc)),
           ([115, 99, 101, 110, 101, 115], JArr (map scene_json (scenes sc)))]"

section \<open>The script parser\<close>

text \<open>
  The character classes of the regular expressions: the line terminators, which \<^verbatim>\<open>.\<close> does
  not match; \<^verbatim>\<open>[a-zA-Z_]\<close>; and \<^verbatim>\<open>\w\<close>.
\<close>

definition is_line_terminator :: "nat \<Rightarrow> bool" where
  "is_line_terminator c = (c = 10 \<or> c = 13 \<or> c = 8232 \<or> c = 8233)"

definition is_letter :: "nat \<Rightarrow> bool" where
  "is_letter c = ((65 \<le> c \<and> c \<le> 90) \<or> (97 \<le> c \<and> c \<le> 122) \<or> c = 95)"

definition is_word :: "nat \<Rightarrow> bool" where
  "is_word c = (is_letter c \<or> (48 \<le> c \<and> c \<le> 57))"

text \<open>
  \<^verbatim>\<open>text.split(/\r?\n/)\<close>: a line ends at a line feed, and a carriage return right before
  that line feed belongs to the separator. The first argument holds the current line,
  reversed.
\<close>

fun split_lines :: "jsstring \<Rightarrow> jsstring \<Rightarrow> jsstring list" where
  "split_lines acc [] = [rev acc]"
| "split_lines acc (c # cs) =
     (if c = 10 then rev (case acc of [] \<Rightarrow> [] | a # as \<Rightarrow> if a = 13 then as else acc)
                     # split_lines [] cs
      else split_lines (c # acc) cs)"

text \<open>
  \<^verbatim>\<open>line.split(" ")[1]\<close> for a line that holds a space: the text between the first space
  and the next one.
\<close>

definition second_field :: "jsstring \<Rightarrow> jsstring" where
  "second_field line = takeWhile (\<lambda>c. c \<noteq> 32) (drop 1 (dropWhile (\<lambda>c. c \<noteq> 32) line))"

text \<open>
  The pattern of a choice line is
  \<^verbatim>\<open>/^>\s*(.*?)\s*->\s*(\S+)(?:\s*\((.*?)\))?/\<close>.

  Its tail \<^verbatim>\<open>\s*->\s*(\S+)\<close> matches in one way at most: each \<^verbatim>\<open>\s*\<close> has to take the
  whole run of spaces, since an arrow or a target starts with no space, and \<^verbatim>\<open>\S+\<close> keeps
  the whole run of non-spaces, since what follows it cannot fail. \<open>arrow_target\<close> returns the
  target and the rest of the line.
\<close>

definition arrow_target :: "jsstring \<Rightarrow> (jsstring \<times> jsstring) option" where
  "arrow_target s =
     (case dropWhile is_space s of
        c1 # c2 # r \<Rightarrow>
          if c1 = 45 \<and> c2 = 62 then
            (let r' = dropWhile is_space r; t = takeWhile (\<lambda>c. \<not> is_space c) r'
             in if t = [] then None else Some (t, dropWhile (\<lambda>c. \<not> is_space c) r'))
          else None
      | other \<Rightarrow> None)"

text \<open>
  The lazy group \<^verbatim>\<open>(.*?)\<close> grows by one character at a time, none of them a line
  terminator, until the tail matches. The first argument holds the label, reversed.
\<close>

fun lazy_label :: "jsstring \<Rightarrow> jsstring \<Rightarrow> (jsstring \<times> jsstring \<times> jsstring) option" where
  "lazy_label acc [] =
     (case arrow_target [] of Some (t, r) \<Rightarrow> Some (rev acc, t, r) | None \<Rightarrow> None)"
| "lazy_label acc (c # cs) =
     (case arrow_target (c # cs) of
        Some (t, r) \<Rightarrow> Some (rev acc, t, r)
      | None \<Rightarrow> if is_line_terminator c then None else lazy_label (c # acc) cs)"

text \<open>
  The optional group \<^verbatim>\<open>(?:\s*\((.*?)\))?\<close>: spaces, an opening parenthesis, and the text
  up to the first closing parenthesis, which no line terminator may precede. \<open>None\<close> is the
  group that did not match.
\<close>

definition effects_group :: "jsstring \<Rightarrow> jsstring option" where
  "effects_group r =
     (case dropWhile is_space r of
        [] \<Rightarrow> None
      | c # r' \<Rightarrow>
          if c = 40 then
            (let e = takeWhile (\<lambda>c. c \<noteq> 41 \<and> \<not> is_line_terminator c) r'
             in case drop (length e) r' of
                  [] \<Rightarrow> None
                | d # ds \<Rightarrow> if d = 41 then Some e else None)
          else None)"

text \<open>
  The match of the whole pattern: label, target and the optional text of the effects. The
  leading \<^verbatim>\<open>\s*\<close> takes the whole run of spaces: a match that leaves some of them to the
  label exists only if one exists that does not, and the latter is tried first.
\<close>

definition choice_match :: "jsstring \<Rightarrow> (jsstring \<times> jsstring \<times> jsstring option) option" where
  "choice_match line =
     (case line of
        [] \<Rightarrow> None
      | c # r \<Rightarrow>
          if c = 62 then
            (case lazy_label [] (dropWhile is_space r) of
               None \<Rightarrow> None
             | Some (t, nxt, rest) \<Rightarrow> Some (t, nxt, effects_group rest))
          else None)"

text \<open>
  \<^verbatim>\<open>effStr.split(/[, ]+/)\<close>: the pieces between the runs of commas and spaces; a run at
  the start or at the end gives an empty piece. The flag tells whether the previous
  character was a separator, the second argument holds the current piece, reversed.
\<close>

fun split_seps :: "bool \<Rightarrow> jsstring \<Rightarrow> jsstring \<Rightarrow> jsstring list" where
  "split_seps insep acc [] = [rev acc]"
| "split_seps insep acc (c # cs) =
     (if c = 44 \<or> c = 32
      then (if insep then split_seps True [] cs else rev acc # split_seps True [] cs)
      else split_seps False (c # acc) cs)"

text \<open>
  \<^verbatim>\<open>eff.match(/^([+-]?)([a-zA-Z_]+)/)\<close> and the delta of the token:
  \<^verbatim>\<open>mm[1] === "-" ? -1 : 1\<close>.
\<close>

definition parse_effect :: "jsstring \<Rightarrow> (jsstring \<times> number) option" where
  "parse_effect eff =
     (let signed = (case eff of [] \<Rightarrow> False | c # cs \<Rightarrow> c = 43 \<or> c = 45);
          sign = (if signed then take 1 eff else []);
          name = takeWhile is_letter (if signed then drop 1 eff else eff)
      in if name = [] then None else Some (name, if sign = [45] then Fin (- 1) else Fin 1))"

text \<open>
  One iteration of the loop over the tokens:
  \<^verbatim>\<open>if (!eff) continue; const mm = ...; if (mm) effects[mm[2]] = ...;\<close>
  The object \<^verbatim>\<open>effects\<close> starts as \<^verbatim>\<open>{}\<close>, so the assignment to the name
  \<^verbatim>\<open>__proto__\<close> is lost.
\<close>

definition add_token :: "numrecord \<Rightarrow> jsstring \<Rightarrow> numrecord" where
  "add_token effects eff =
     (if eff = [] then effects
      else (case parse_effect eff of
              None \<Rightarrow> effects
            | Some (name, d) \<Rightarrow> assign name d effects))"

text \<open>The tokens of the text of the effects; none when the text is absent or empty.\<close>

definition effect_tokens :: "jsstring option \<Rightarrow> jsstring list" where
  "effect_tokens effStr =
     (case effStr of None \<Rightarrow> [] | Some s \<Rightarrow> if s = [] then [] else split_seps False [] s)"

definition parse_effects :: "jsstring option \<Rightarrow> numrecord" where
  "parse_effects effStr = foldl add_token [] (effect_tokens effStr)"

text \<open>
  The choice that a matching line adds:
  \<^verbatim>\<open>{ text: t, next, effects: Object.keys(effects).length ? effects : undefined }\<close>
\<close>

definition parse_choice :: "jsstring \<Rightarrow> choice option" where
  "parse_choice line =
     (case choice_match line of
        None \<Rightarrow> None
      | Some (t, nxt, effStr) \<Rightarrow>
          (let effects = parse_effects effStr
           in Some \<lparr>c_text = t, c_next = nxt,
                     c_effects = (if effects = [] then None else Some effects)\<rparr>))"

text \<open>\<^verbatim>\<open>if (current) scenes.push(current)\<close>\<close>

fun push_current :: "scene list \<Rightarrow> scene option \<Rightarrow> scene list" where
  "push_current scs None = scs"
| "push_current scs (Some cur) = scs @ [cur]"

text \<open>
  The body of the loop over the lines, on the pair of \<^verbatim>\<open>scenes\<close> and \<^verbatim>\<open>current\<close>. The
  markers are \<^verbatim>\<open>"#scene "\<close>, \<^verbatim>\<open>"#ending "\<close>, \<^verbatim>\<open>">"\<close> and the marker of the title of an
  ending, the two Hangul syllables U+C5D4 and U+B529 followed by a colon.
\<close>

definition step_line :: "scene list \<times> scene option \<Rightarrow> jsstring \<Rightarrow> scene list \<times> scene option" where
  "step_line st raw =
     (let line = trim raw; scs = fst st; cur = snd st in
      if line = [] then st
      else if starts_with line [35, 115, 99, 101, 110, 101, 32]
        then (push_current scs cur, Some (Scene (second_field line) [] []))
      else if starts_with line [35, 101, 110, 100, 105, 110, 103, 32]
        then (push_current scs cur, Some (Ending (second_field line) [] []))
      else if starts_with line [62]
        then (case cur of
                Some (Scene i b chs) \<Rightarrow>
                  (case parse_choice line of
                     None \<Rightarrow> st
                   | Some ch \<Rightarrow> (scs, Some (Scene i b (chs @ [ch]))))
              | other \<Rightarrow> st)
      else (case cur of
              None \<Rightarrow> st
            | Some (Scene i b chs) \<Rightarrow> (scs, Some (Scene i (b @ [line]) chs))
            | Some (Ending i t b) \<Rightarrow>
                if t = [] \<and> starts_with line [50644, 46377, 58]
                then (scs, Some (Ending i line b))
                else (scs, Some (Ending i t (b @ [line])))))"

text \<open>The scenes of a list of lines, and of a text.\<close>

definition scenes_of_lines :: "jsstring list \<Rightarrow> scene list" where
  "scenes_of_lines ls =
     (let st = foldl step_line ([], None) ls in push_current (fst st) (snd st))"

definition parse_scenes :: "jsstring \<Rightarrow> scene list" where
  "parse_scenes txt = scenes_of_lines (split_lines [] txt)"

text \<open>
  \<^verbatim>\<open>file.name.replace(/\.\w+$/, "")\<close>: the name without its extension, a dot followed by
  word characters up to the end.
\<close>

fun strip_extension :: "jsstring \<Rightarrow> jsstring" where
  "strip_extension [] = []"
| "strip_extension (c # cs) =
     (if c = 46 \<and> cs \<noteq> [] \<and> list_all is_word cs then [] else c # strip_extension cs)"

text \<open>
  \<^verbatim>\<open>parseTxtToScenario\<close> of the lobby, and the same steps of \<^verbatim>\<open>onTxtUpload\<close> of the
  single-player page: the scenes of the text, the title from the name of the file, the
  start \<^verbatim>\<open>scenes[0]?.id ?? "start"\<close>, and the validation of the result.
\<close>

definition parseTxtToScenario :: "jsstring \<Rightarrow> jsstring \<Rightarrow> error + scenario" where
  "parseTxtToScenario name txt =
     (let scs = parse_scenes txt;
          sc = \<lparr>title = strip_extension name,
                start = (case scs of [] \<Rightarrow> [115, 116, 97, 114, 116] | s # ss \<Rightarrow> scene_id s),
                scenes = scs\<rparr>
      in case validateScenario (scenario_json sc) of Inl e \<Rightarrow> Inl e | Inr u \<Rightarrow> Inr sc)"

section \<open>Example data\<close>

text \<open>
  A scenario with the scene \<open>s\<close>, whose single choice \<open>Go\<close> leads to the ending \<open>e\<close> and
  raises the variable \<open>x\<close>, and clients of a room that plays it.
\<close>

definition example_choice :: choice where
  "example_choice = \<lparr>c_text = [71, 111], c_next = [101], c_effects = Some [([120], Fin 1)]\<rparr>"

definition example_scenario :: scenario where
  "example_scenario =
     \<lparr>title = [116], start = [115],
      scenes = [Scene [115] [[72, 105]] [example_choice], Ending [101] [] [[66, 121, 101]]]\<rparr>"

definition example_state :: shared_state where
  "example_state = \<lparr>sceneId = [115], vars = [([120], Num (Fin 2))], turn = P1, version = 3\<rparr>"

definition example_message :: message where
  "example_message =
     \<lparr>m_id = [49], m_role = P2, m_name = [66], m_sceneId = [115], m_choiceText = [71, 111],
      m_text = [104, 105], m_ts = 10, m_edited = None\<rparr>"

text \<open>The first player, holding the turn in scene \<open>s\<close> with the composer open.\<close>

definition example_client :: client where
  "example_client =
     \<lparr>role = P1, displayName = [65], scenario = Some example_scenario,
      shared = Some example_state, sharedRef = Some example_state, loading = False,
      peers = [[65, 40, 80, 49, 41], [66, 40, 80, 50, 41]], logs = [example_message],
      composerChoice = Some example_choice, composerText = [32, 111, 107, 32],
      editingId = None, editingText = [], channelRef = True, redirectedRef = False,
      debounceTimer = None\<rparr>"

text \<open>The second player of the same room, at the ending \<open>e\<close>.\<close>

definition ending_client :: client where
  "ending_client =
     \<lparr>role = P2, displayName = [66], scenario = Some example_scenario,
      shared = Some \<lparr>sceneId = [101], vars = [([120], Num (Fin 3))], turn = P2, version = 4\<rparr>,
      sharedRef = Some \<lparr>sceneId = [101], vars = [([120], Num (Fin 3))], turn = P2, version = 4\<rparr>,
      loading = False,
      peers = [[65, 40, 80, 49, 41], [66, 40, 80, 50, 41]], logs = [example_message],
      composerChoice = None, composerText = [],
      editingId = None, editingText = [], channelRef = True, redirectedRef = False,
      debounceTimer = None\<rparr>"

text \<open>The role that does not hold the turn.\<close>

fun opposite :: "turn \<Rightarrow> turn" where
  "opposite P1 = P2"
| "opposite P2 = P1"


section \<open>Properties of the effect ledger\<close>

lemma round53_pow: "round53 9007199254740992 = 9007199254740992"
  "round53 (- 9007199254740992) = - 9007199254740992"
  by code_simp+

lemma round53_exact: "\<bar>k\<bar> \<le> 2 ^ 53 \<Longrightarrow> round53 k = k"
proof (cases "\<bar>k\<bar> < 2 ^ 53")
  case True
  then show ?thesis by (simp add: round53_def)
next
  case False
  assume "\<bar>k\<bar> \<le> 2 ^ 53"
  with False have "k = 9007199254740992 \<or> k = - 9007199254740992" by auto
  then show ?thesis using round53_pow by auto
qed

lemma num_add_exact: "\<bar>a + b\<bar> \<le> 2 ^ 53 \<Longrightarrow> num_add (Fin a) (Fin b) = Fin (a + b)"
proof -
  assume le: "\<bar>a + b\<bar> \<le> 2 ^ 53"
  have "(2::int) ^ 53 < 2 ^ 1024" by simp
  with le have "a + b < 2 ^ 1024" "- (2 ^ 1024) < a + b" by linarith+
  with le show ?thesis
    by (simp add: double_sum_def round53_exact overflow_def)
qed

lemma proto_key_member: "is_proto_member [95, 95, 112, 114, 111, 116, 111, 95, 95]"
  by (simp add: is_proto_member_def)

lemma map_of_assign_same:
  "\<not> is_proto_member k \<Longrightarrow> map_of (assign k x r) k = Some x"
  using proto_key_member by (auto simp: assign_def update_conv')

lemma map_of_assign_other:
  "k \<noteq> a \<Longrightarrow> map_of (assign a x r) k = map_of r k"
  by (simp add: assign_def update_conv')

lemma map_of_add_effect_other:
  "k \<noteq> fst e \<Longrightarrow> map_of (add_effect e r) k = map_of r k"
  by (simp add: add_effect_def map_of_assign_other)

lemma map_of_add_effect_same:
  "\<not> is_proto_member k \<Longrightarrow>
     map_of (add_effect (k, v) r) k = Some (plus_number (read_or_zero r k) v)"
  by (simp add: add_effect_def map_of_assign_same)

lemma read_or_zero_plain:
  "\<not> is_proto_member k \<Longrightarrow>
     read_or_zero r k = (case map_of r k of None \<Rightarrow> Num (Fin 0) | Some x \<Rightarrow> x)"
  by (simp add: read_or_zero_def split: option.splits)

lemma read_or_zero_other:
  "k \<noteq> fst e \<Longrightarrow> read_or_zero (add_effect e r) k = read_or_zero r k"
  by (simp add: read_or_zero_def map_of_add_effect_other)

lemma fold_absent:
  "k \<notin> fst ` set es \<Longrightarrow> map_of (fold add_effect es r) k = map_of r k"
  by (induction es arbitrary: r) (auto simp: map_of_add_effect_other)

lemma fold_distinct:
  assumes "distinct (map fst es)" and "\<not> is_proto_member k"
  shows "map_of (fold add_effect es r) k =
           (case map_of es k of
              None \<Rightarrow> map_of r k
            | Some d \<Rightarrow> Some (plus_number (read_or_zero r k) d))"
  using assms(1)
proof (induction es arbitrary: r)
  case Nil
  then show ?case by simp
next
  case (Cons e es)
  obtain a v where e: "e = (a, v)" by (cases e)
  from Cons.prems have d: "distinct (map fst es)" and na: "a \<notin> fst ` set es"
    by (simp_all add: e)
  show ?case
  proof (cases "k = a")
    case True
    from na True have "map_of es k = None"
      by (simp add: map_of_eq_None_iff)
    moreover from na True have "map_of (fold add_effect es (add_effect e r)) k
        = map_of (add_effect e r) k"
      by (simp add: fold_absent)
    ultimately show ?thesis
      using True e assms(2) by (simp add: map_of_add_effect_same)
  next
    case False
    then have "k \<noteq> fst e" by (simp add: e)
    then show ?thesis
      using Cons.IH [OF d, of "add_effect e r"] False e
      by (cases "map_of es k") (simp_all add: map_of_add_effect_other read_or_zero_other)
  qed
qed

text \<open>
  C4, amended. For every \<open>vars\<close> and every effects object (its keys are distinct, as the
  keys of an object are): a key of the effects that is no name of a member of
  \<^verbatim>\<open>Object.prototype\<close> maps to the sum, in the arithmetic of doubles, of the value that
  \<open>vars\<close> has for it (0 when it has none) and the delta; every key that the effects do
  not hold reads as it does in \<open>vars\<close>; the sum of two integers is their exact sum rounded
  to a double, hence their exact sum when that is at most \<open>2 ^ 53\<close> in magnitude; and when
  the effects are absent the result is \<open>vars\<close> itself. Nothing is said of the keys of the
  effects that name a member of \<^verbatim>\<open>Object.prototype\<close>.
\<close>

theorem applyEffects_spec:
  assumes "distinct (map fst effects)"
  shows "(\<not> is_proto_member k \<longrightarrow>
            map_of (applyEffects vs (Some effects)) k =
              (case map_of effects k of
                 None \<Rightarrow> map_of vs k
               | Some d \<Rightarrow>
                   Some (plus_number (case map_of vs k of None \<Rightarrow> Num (Fin 0) | Some x \<Rightarrow> x) d)))
         \<and> (map_of effects k = None \<longrightarrow> map_of (applyEffects vs (Some effects)) k = map_of vs k)
         \<and> plus_number (Num (Fin a)) (Fin b) = Num (overflow (round53 (a + b)))
         \<and> (\<bar>a + b\<bar> \<le> 2 ^ 53 \<longrightarrow> plus_number (Num (Fin a)) (Fin b) = Num (Fin (a + b)))
         \<and> applyEffects vs None = vs"
proof (intro conjI impI)
  assume "\<not> is_proto_member k"
  then show "map_of (applyEffects vs (Some effects)) k =
              (case map_of effects k of
                 None \<Rightarrow> map_of vs k
               | Some d \<Rightarrow>
                   Some (plus_number (case map_of vs k of None \<Rightarrow> Num (Fin 0) | Some x \<Rightarrow> x) d))"
    using fold_distinct [OF assms, of k vs]
    by (cases "map_of effects k") (simp_all add: read_or_zero_plain)
next
  assume "map_of effects k = None"
  then have "k \<notin> fst ` set effects"
    by (simp add: map_of_eq_None_iff)
  then show "map_of (applyEffects vs (Some effects)) k = map_of vs k"
    by (simp add: fold_absent)
next
  show "plus_number (Num (Fin a)) (Fin b) = Num (overflow (round53 (a + b)))"
    by (simp add: double_sum_def)
next
  assume "\<bar>a + b\<bar> \<le> 2 ^ 53"
  then have "num_add (Fin a) (Fin b) = Fin (a + b)"
    by (rule num_add_exact)
  then show "plus_number (Num (Fin a)) (Fin b) = Num (Fin (a + b))"
    by (simp only: plus_number.simps)
next
  show "applyEffects vs None = vs" by simp
qed

theorem applyEffects_spec_witness:
  "distinct (map fst [([99 :: nat], Fin 2), ([100], Fin (- 1))])
   \<and> \<not> is_proto_member [99]
   \<and> map_of (applyEffects [([97], Num (Fin 5)), ([99], Num (Fin 1))]
         (Some [([99], Fin 2), ([100], Fin (- 1))])) [99] = Some (Num (Fin 3))
   \<and> map_of [([99 :: nat], Fin 2), ([100], Fin (- 1))] [97] = None
   \<and> map_of (applyEffects [([97], Num (Fin 5)), ([99], Num (Fin 1))]
         (Some [([99], Fin 2), ([100], Fin (- 1))])) [97] = Some (Num (Fin 5))
   \<and> \<bar>1 + 2 :: int\<bar> \<le> 2 ^ 53
   \<and> plus_number (Num (Fin 1)) (Fin 2) = Num (Fin 3)"
proof -
  have d: "distinct (map fst [([99 :: nat], Fin 2), ([100], Fin (- 1))])" by simp
  have m: "\<not> is_proto_member [99]" by (simp add: is_proto_member_def)
  have p: "plus_number (Num (Fin 1)) (Fin 2) = Num (Fin 3)"
    using applyEffects_spec [OF d, of "[99]" "[]" 1 2]
    by (simp add: double_sum_def round53_def overflow_def)
  show ?thesis
    using d m p
      applyEffects_spec [OF d, of "[99]" "[([97], Num (Fin 5)), ([99], Num (Fin 1))]" 1 2]
      applyEffects_spec [OF d, of "[97]" "[([97], Num (Fin 5)), ([99], Num (Fin 1))]" 1 2]
    by (simp add: double_sum_def round53_def overflow_def)
qed

text \<open>
  C4, as stated, fails: with the variable \<open>x\<close> at \<open>2 ^ 53\<close> and the delta 1 the result
  holds \<open>2 ^ 53\<close> for \<open>x\<close>, not \<open>2 ^ 53 + 1\<close>; with no variables and the delta 1 for
  \<^verbatim>\<open>constructor\<close> the result holds a string for it, the text of the inherited member
  followed by the text of 1, not the number 1; and with no variables and the delta 1 for
  \<^verbatim>\<open>__proto__\<close> the result holds nothing for it.
\<close>

theorem applyEffects_rounds_and_inherits:
  "map_of (applyEffects [([120], Num (Fin 9007199254740992))] (Some [([120], Fin 1)])) [120]
     = Some (Num (Fin 9007199254740992))
   \<and> map_of (applyEffects [] (Some [([99, 111, 110, 115, 116, 114, 117, 99, 116, 111, 114], Fin 1)]))
       [99, 111, 110, 115, 116, 114, 117, 99, 116, 111, 114]
     = Some (Str [MemberText [99, 111, 110, 115, 116, 114, 117, 99, 116, 111, 114],
                  NumberText (Fin 1)])
   \<and> map_of (applyEffects [] (Some [([95, 95, 112, 114, 111, 116, 111, 95, 95], Fin 1)]))
       [95, 95, 112, 114, 111, 116, 111, 95, 95]
     = None"
  by code_simp

lemma total_delta_Cons:
  "total_delta (e # es) k = (if fst e = k then delta_int (snd e) else 0) + total_delta es k"
  by (simp add: total_delta_def)

lemma total_abs_Cons:
  "total_abs (e # es) k = (if fst e = k then \<bar>delta_int (snd e)\<bar> else 0) + total_abs es k"
  by (simp add: total_abs_def)

lemma total_abs_nonneg: "0 \<le> total_abs es k"
proof (induction es)
  case Nil
  show ?case by (simp add: total_abs_def)
next
  case (Cons e es)
  then show ?case by (simp add: total_abs_Cons)
qed

lemma total_delta_absent: "k \<notin> fst ` set es \<Longrightarrow> total_delta es k = 0"
proof (induction es)
  case Nil
  show ?case by (simp add: total_delta_def)
next
  case (Cons e es)
  then show ?case by (auto simp: total_delta_Cons)
qed

lemma total_delta_le_abs: "\<bar>total_delta es k\<bar> \<le> total_abs es k"
proof (induction es)
  case Nil
  show ?case by (simp add: total_delta_def total_abs_def)
next
  case (Cons e es)
  then show ?case by (auto simp: total_delta_Cons total_abs_Cons)
qed

lemma int_at_other:
  "k \<noteq> fst e \<Longrightarrow> int_at (add_effect e r) k = int_at r k"
  by (simp add: int_at_def map_of_add_effect_other)

lemma read_or_zero_int:
  "\<not> is_proto_member k \<Longrightarrow> int_at r k = Some a \<Longrightarrow> read_or_zero r k = Num (Fin a)"
  by (auto simp: int_at_def read_or_zero_def split: option.splits jsvalue.splits number.splits)

lemma add_effect_exact:
  assumes "\<not> is_proto_member k" and "int_at r k = Some a" and "\<bar>a + b\<bar> \<le> 2 ^ 53"
  shows "map_of (add_effect (k, Fin b) r) k = Some (Num (Fin (a + b)))"
proof -
  have "num_add (Fin a) (Fin b) = Fin (a + b)"
    using assms(3) by (rule num_add_exact)
  then show ?thesis
    using assms(1,2) by (simp add: map_of_add_effect_same read_or_zero_int)
qed

lemma fold_exact:
  assumes "\<not> is_proto_member k"
  shows "int_at r k = Some a \<Longrightarrow> list_all (\<lambda>e. is_fin (snd e)) es
         \<Longrightarrow> \<bar>a\<bar> + total_abs es k \<le> 2 ^ 53
         \<Longrightarrow> map_of (fold add_effect es r) k =
               (if k \<in> fst ` set es then Some (Num (Fin (a + total_delta es k)))
                else map_of r k)"
proof (induction es arbitrary: r a)
  case Nil
  then show ?case by simp
next
  case (Cons e es)
  obtain c v where e: "e = (c, v)" by (cases e)
  from Cons.prems(2) obtain b where v: "v = Fin b"
    by (cases v) (simp_all add: e)
  from Cons.prems(2) have fin: "list_all (\<lambda>e. is_fin (snd e)) es" by simp
  show ?case
  proof (cases "c = k")
    case True
    from Cons.prems(3) have bound: "\<bar>a\<bar> + \<bar>b\<bar> + total_abs es k \<le> 2 ^ 53"
      by (simp add: total_abs_Cons e v True)
    with total_abs_nonneg [of es k] have ab: "\<bar>a + b\<bar> \<le> 2 ^ 53" by linarith
    have m: "map_of (add_effect e r) k = Some (Num (Fin (a + b)))"
      using add_effect_exact [OF assms Cons.prems(1) ab] by (simp add: e v True)
    then have i: "int_at (add_effect e r) k = Some (a + b)"
      by (simp add: int_at_def)
    from bound have b2: "\<bar>a + b\<bar> + total_abs es k \<le> 2 ^ 53" by linarith
    from Cons.IH [OF i fin b2] m show ?thesis
      by (simp add: e v True total_delta_Cons total_delta_absent)
  next
    case False
    then have ne: "k \<noteq> fst e" by (auto simp: e)
    from Cons.prems(1) ne have i: "int_at (add_effect e r) k = Some a"
      by (simp add: int_at_other)
    from Cons.prems(3) False have b2: "\<bar>a\<bar> + total_abs es k \<le> 2 ^ 53"
      by (simp add: total_abs_Cons e)
    from Cons.IH [OF i fin b2] ne False show ?thesis
      by (simp add: e total_delta_Cons map_of_add_effect_other)
  qed
qed

lemma applyEffects_exact:
  assumes "\<not> is_proto_member k" and "int_at r k = Some a"
    and "list_all (\<lambda>e. is_fin (snd e)) (entries eo)"
    and "\<bar>a\<bar> + total_abs (entries eo) k \<le> 2 ^ 53"
  shows "map_of (applyEffects r eo) k =
           (if k \<in> fst ` set (entries eo) then Some (Num (Fin (a + total_delta (entries eo) k)))
            else map_of r k)"
  using fold_exact [OF assms(1,2), of "entries eo"] assms(3,4)
  by (cases eo) simp_all

lemma int_at_applyEffects:
  assumes "\<not> is_proto_member k" and "int_at r k = Some a"
    and "list_all (\<lambda>e. is_fin (snd e)) (entries eo)"
    and "\<bar>a\<bar> + total_abs (entries eo) k \<le> 2 ^ 53"
  shows "int_at (applyEffects r eo) k = Some (a + total_delta (entries eo) k)"
proof (cases "k \<in> fst ` set (entries eo)")
  case True
  with applyEffects_exact [OF assms] show ?thesis by (simp add: int_at_def)
next
  case False
  with applyEffects_exact [OF assms] assms(2) show ?thesis
    by (simp add: int_at_def total_delta_absent)
qed

lemma all_keys_Cons:
  "all_keys (eo # es) = fst ` set (entries eo) \<union> all_keys es"
  by (simp add: all_keys_def)

lemma all_delta_Cons:
  "all_delta (eo # es) k = total_delta (entries eo) k + all_delta es k"
  by (simp add: all_delta_def)

lemma all_abs_Cons:
  "all_abs (eo # es) k = total_abs (entries eo) k + all_abs es k"
  by (simp add: all_abs_def)

lemma all_abs_nonneg: "0 \<le> all_abs es k"
proof (induction es)
  case Nil
  show ?case by (simp add: all_abs_def)
next
  case (Cons eo es)
  with total_abs_nonneg [of "entries eo" k] show ?case by (simp add: all_abs_Cons)
qed

lemma all_delta_absent: "k \<notin> all_keys es \<Longrightarrow> all_delta es k = 0"
proof (induction es)
  case Nil
  show ?case by (simp add: all_delta_def)
next
  case (Cons eo es)
  then show ?case by (simp add: all_keys_Cons all_delta_Cons total_delta_absent)
qed

lemma apply_all_absent: "k \<notin> all_keys es \<Longrightarrow> map_of (apply_all r es) k = map_of r k"
proof (induction es arbitrary: r)
  case Nil
  show ?case by (simp add: apply_all_def)
next
  case (Cons eo es)
  then have a: "k \<notin> fst ` set (entries eo)" and b: "k \<notin> all_keys es"
    by (simp_all add: all_keys_Cons)
  have "apply_all r (eo # es) = apply_all (applyEffects r eo) es"
    by (simp add: apply_all_def)
  moreover have "map_of (applyEffects r eo) k = map_of r k"
    using a by (cases eo) (simp_all add: fold_absent)
  ultimately show ?case using Cons.IH [OF b] by simp
qed

lemma apply_all_exact:
  assumes "\<not> is_proto_member k"
  shows "int_at r k = Some a \<Longrightarrow> all_fin es \<Longrightarrow> \<bar>a\<bar> + all_abs es k \<le> 2 ^ 53
         \<Longrightarrow> map_of (apply_all r es) k =
               (if k \<in> all_keys es then Some (Num (Fin (a + all_delta es k))) else map_of r k)"
proof (induction es arbitrary: r a)
  case Nil
  show ?case by (simp add: apply_all_def all_keys_def)
next
  case (Cons eo es)
  have unroll: "apply_all r (eo # es) = apply_all (applyEffects r eo) es"
    by (simp add: apply_all_def)
  from Cons.prems(2) have fin1: "list_all (\<lambda>e. is_fin (snd e)) (entries eo)"
    and fin2: "all_fin es"
    by (simp_all add: all_fin_def)
  from Cons.prems(3) have bound: "\<bar>a\<bar> + total_abs (entries eo) k + all_abs es k \<le> 2 ^ 53"
    by (simp add: all_abs_Cons)
  with all_abs_nonneg [of es k] have b1: "\<bar>a\<bar> + total_abs (entries eo) k \<le> 2 ^ 53"
    by linarith
  have i: "int_at (applyEffects r eo) k = Some (a + total_delta (entries eo) k)"
    using int_at_applyEffects [OF assms Cons.prems(1) fin1 b1] .
  from bound total_delta_le_abs [of "entries eo" k]
  have b2: "\<bar>a + total_delta (entries eo) k\<bar> + all_abs es k \<le> 2 ^ 53"
    by linarith
  note ih = Cons.IH [OF i fin2 b2]
  show ?case
  proof (cases "k \<in> all_keys es")
    case True
    with ih show ?thesis
      by (simp add: unroll all_keys_Cons all_delta_Cons add.assoc)
  next
    case False
    with ih applyEffects_exact [OF assms Cons.prems(1) fin1 b1] show ?thesis
      by (simp add: unroll all_keys_Cons all_delta_Cons all_delta_absent)
  qed
qed

lemma sum_list_mset_cong:
  "mset xs = mset ys \<Longrightarrow> sum_list (map f xs) = sum_list (map (f :: 'a \<Rightarrow> int) ys)"
proof -
  assume eq: "mset xs = mset ys"
  have "sum_list (map f xs) = sum_mset (image_mset f (mset xs))"
    by (induction xs) simp_all
  moreover have "sum_list (map f ys) = sum_mset (image_mset f (mset ys))"
    by (induction ys) simp_all
  ultimately show ?thesis by (simp only: eq)
qed

lemma all_delta_mset: "mset es1 = mset es2 \<Longrightarrow> all_delta es1 k = all_delta es2 k"
  unfolding all_delta_def by (rule sum_list_mset_cong)

lemma all_abs_mset: "mset es1 = mset es2 \<Longrightarrow> all_abs es1 k = all_abs es2 k"
  unfolding all_abs_def by (rule sum_list_mset_cong)

lemma set_of_mset_eq: "mset es1 = mset es2 \<Longrightarrow> set es1 = set es2"
  by (rule mset_eq_setD)

lemma all_keys_mset: "mset es1 = mset es2 \<Longrightarrow> all_keys es1 = all_keys es2"
proof -
  assume "mset es1 = mset es2"
  then have "set es1 = set es2" by (rule set_of_mset_eq)
  then show ?thesis by (simp add: all_keys_def)
qed

lemma all_fin_mset: "mset es1 = mset es2 \<Longrightarrow> all_fin es1 = all_fin es2"
proof -
  assume "mset es1 = mset es2"
  then have "set es1 = set es2" by (rule set_of_mset_eq)
  then show ?thesis by (simp add: all_fin_def list_all_iff)
qed

lemma exact_sums_mset: "mset es1 = mset es2 \<Longrightarrow> exact_sums vs es1 = exact_sums vs es2"
proof -
  assume eq: "mset es1 = mset es2"
  have "all_abs es1 = all_abs es2"
    by (rule ext) (rule all_abs_mset [OF eq])
  then show ?thesis
    unfolding exact_sums_def all_fin_mset [OF eq] all_keys_mset [OF eq]
    by (simp cong: option.case_cong)
qed

lemma apply_all_value:
  assumes "exact_sums vs es"
  shows "map_of (apply_all vs es) k =
           (if k \<in> all_keys es
            then Some (Num (Fin ((case int_at vs k of None \<Rightarrow> 0 | Some a \<Rightarrow> a) + all_delta es k)))
            else map_of vs k)"
proof (cases "k \<in> all_keys es")
  case False
  then show ?thesis by (simp add: apply_all_absent)
next
  case True
  from assms have fin: "all_fin es"
    and ball: "\<forall>k \<in> all_keys es. \<not> is_proto_member k \<and>
         (case int_at vs k of None \<Rightarrow> False | Some a \<Rightarrow> \<bar>a\<bar> + all_abs es k \<le> 2 ^ 53)"
    unfolding exact_sums_def by blast+
  from ball True have nm: "\<not> is_proto_member k"
    and c: "case int_at vs k of None \<Rightarrow> False | Some a \<Rightarrow> \<bar>a\<bar> + all_abs es k \<le> 2 ^ 53"
    by blast+
  from c obtain a where ia: "int_at vs k = Some a" and bd: "\<bar>a\<bar> + all_abs es k \<le> 2 ^ 53"
    by (cases "int_at vs k") simp_all
  have "map_of (apply_all vs es) k =
               (if k \<in> all_keys es then Some (Num (Fin (a + all_delta es k))) else map_of vs k)"
    using nm ia fin bd by (rule apply_all_exact)
  with True ia show ?thesis by simp
qed

lemma apply_all_mset:
  assumes "exact_sums vs es1" and "mset es1 = mset es2"
  shows "map_of (apply_all vs es1) = map_of (apply_all vs es2)"
proof
  fix k
  from assms(1) exact_sums_mset [OF assms(2), of vs] have e2: "exact_sums vs es2"
    by blast
  show "map_of (apply_all vs es1) k = map_of (apply_all vs es2) k"
    by (simp only: apply_all_value [OF assms(1)] apply_all_value [OF e2]
        all_keys_mset [OF assms(2)] all_delta_mset [OF assms(2)])
qed

text \<open>
  C5, amended. When every sum is exact (\<open>exact_sums\<close>: finite deltas, and for every key
  named a name that is no member of \<^verbatim>\<open>Object.prototype\<close>, an integer value, and a bound
  of \<open>2 ^ 53\<close> on its magnitude plus the magnitudes of the deltas), applying two effect
  maps in either order gives the same mapping, and so does applying any two sequences that
  hold the same effect maps the same number of times; a key named then holds its integer
  plus the sum of its deltas.
\<close>

theorem applyEffects_commute:
  "(exact_sums vs [e1, e2] \<longrightarrow>
      map_of (applyEffects (applyEffects vs e1) e2) = map_of (applyEffects (applyEffects vs e2) e1))
   \<and> (exact_sums vs es1 \<and> mset es1 = mset es2 \<longrightarrow>
      map_of (apply_all vs es1) = map_of (apply_all vs es2))
   \<and> (exact_sums vs es1 \<and> k \<in> all_keys es1 \<longrightarrow>
      map_of (apply_all vs es1) k
        = Some (Num (Fin ((case int_at vs k of None \<Rightarrow> 0 | Some a \<Rightarrow> a) + all_delta es1 k))))"
proof (intro conjI impI)
  assume a: "exact_sums vs [e1, e2]"
  have "mset [e1, e2] = mset [e2, e1]" by simp
  from apply_all_mset [OF a this]
  show "map_of (applyEffects (applyEffects vs e1) e2) = map_of (applyEffects (applyEffects vs e2) e1)"
    by (simp add: apply_all_def)
next
  assume "exact_sums vs es1 \<and> mset es1 = mset es2"
  then show "map_of (apply_all vs es1) = map_of (apply_all vs es2)"
    using apply_all_mset by blast
next
  assume "exact_sums vs es1 \<and> k \<in> all_keys es1"
  then show "map_of (apply_all vs es1) k
        = Some (Num (Fin ((case int_at vs k of None \<Rightarrow> 0 | Some a \<Rightarrow> a) + all_delta es1 k)))"
    using apply_all_value [of vs es1 k] by simp
qed

theorem applyEffects_commute_witness:
  "exact_sums [([98], Num (Fin 4))] [Some [([97], Fin 1)], Some [([97], Fin (- 1)), ([98], Fin 1)]]
   \<and> map_of (applyEffects (applyEffects [([98], Num (Fin 4))] (Some [([97], Fin 1)]))
          (Some [([97], Fin (- 1)), ([98], Fin 1)]))
     = map_of (applyEffects (applyEffects [([98], Num (Fin 4))]
          (Some [([97], Fin (- 1)), ([98], Fin 1)])) (Some [([97], Fin 1)]))
   \<and> exact_sums [([98], Num (Fin 4))]
        [Some [([97], Fin 1)], None, Some [([97], Fin (- 1)), ([98], Fin 1)]]
   \<and> mset [Some [([97 :: nat], Fin 1)], None, Some [([97], Fin (- 1)), ([98], Fin 1)]]
     = mset [Some [([97], Fin (- 1)), ([98], Fin 1)], Some [([97], Fin 1)], None]
   \<and> map_of (apply_all [([98], Num (Fin 4))]
          [Some [([97], Fin 1)], None, Some [([97], Fin (- 1)), ([98], Fin 1)]])
     = map_of (apply_all [([98], Num (Fin 4))]
          [Some [([97], Fin (- 1)), ([98], Fin 1)], Some [([97], Fin 1)], None])
   \<and> [98] \<in> all_keys [Some [([97 :: nat], Fin 1)], None, Some [([97], Fin (- 1)), ([98], Fin 1)]]
   \<and> map_of (apply_all [([98], Num (Fin 4))]
          [Some [([97], Fin 1)], None, Some [([97], Fin (- 1)), ([98], Fin 1)]]) [98]
     = Some (Num (Fin 5))"
proof -
  have a: "exact_sums [([98], Num (Fin 4))]
      [Some [([97], Fin 1)], Some [([97], Fin (- 1)), ([98], Fin 1)]]"
    by (simp add: exact_sums_def all_fin_def all_keys_def all_abs_def total_abs_def int_at_def
        is_proto_member_def)
  have b: "exact_sums [([98], Num (Fin 4))]
      [Some [([97], Fin 1)], None, Some [([97], Fin (- 1)), ([98], Fin 1)]]"
    by (simp add: exact_sums_def all_fin_def all_keys_def all_abs_def total_abs_def int_at_def
        is_proto_member_def)
  have m: "mset [Some [([97 :: nat], Fin 1)], None, Some [([97], Fin (- 1)), ([98], Fin 1)]]
     = mset [Some [([97], Fin (- 1)), ([98], Fin 1)], Some [([97], Fin 1)], None]"
    by (simp add: add_mset_commute)
  have k: "[98] \<in> all_keys [Some [([97 :: nat], Fin 1)], None, Some [([97], Fin (- 1)), ([98], Fin 1)]]"
    by (simp add: all_keys_def)
  have v: "(case int_at [([98], Num (Fin 4))] [98] of None \<Rightarrow> 0 | Some a \<Rightarrow> a)
      + all_delta [Some [([97 :: nat], Fin 1)], None, Some [([97], Fin (- 1)), ([98], Fin 1)]] [98] = 5"
    by (simp add: int_at_def all_delta_def total_delta_def)
  note inst = applyEffects_commute [of "[([98], Num (Fin 4))]" "Some [([97], Fin 1)]"
        "Some [([97], Fin (- 1)), ([98], Fin 1)]"
        "[Some [([97], Fin 1)], None, Some [([97], Fin (- 1)), ([98], Fin 1)]]"
        "[Some [([97], Fin (- 1)), ([98], Fin 1)], Some [([97], Fin 1)], None]" "[98]"]
  from inst a have c1: "map_of (applyEffects (applyEffects [([98], Num (Fin 4))] (Some [([97], Fin 1)]))
          (Some [([97], Fin (- 1)), ([98], Fin 1)]))
     = map_of (applyEffects (applyEffects [([98], Num (Fin 4))]
          (Some [([97], Fin (- 1)), ([98], Fin 1)])) (Some [([97], Fin 1)]))"
    by blast
  from inst b m have c2: "map_of (apply_all [([98], Num (Fin 4))]
          [Some [([97], Fin 1)], None, Some [([97], Fin (- 1)), ([98], Fin 1)]])
     = map_of (apply_all [([98], Num (Fin 4))]
          [Some [([97], Fin (- 1)), ([98], Fin 1)], Some [([97], Fin 1)], None])"
    by blast
  from inst b k have "map_of (apply_all [([98], Num (Fin 4))]
          [Some [([97], Fin 1)], None, Some [([97], Fin (- 1)), ([98], Fin 1)]]) [98]
     = Some (Num (Fin ((case int_at [([98], Num (Fin 4))] [98] of None \<Rightarrow> 0 | Some a \<Rightarrow> a)
      + all_delta [Some [([97 :: nat], Fin 1)], None, Some [([97], Fin (- 1)), ([98], Fin 1)]] [98])))"
    by blast
  then have c3: "map_of (apply_all [([98], Num (Fin 4))]
          [Some [([97], Fin 1)], None, Some [([97], Fin (- 1)), ([98], Fin 1)]]) [98]
     = Some (Num (Fin 5))"
    by (simp only: v)
  from a c1 b m c2 k c3 show ?thesis
    by (intro conjI)
qed

text \<open>
  C5, as stated, fails: with the variable \<open>x\<close> at \<open>2 ^ 53\<close>, applying the delta 1 and
  then the delta \<open>-1\<close> leaves \<open>2 ^ 53 - 1\<close>, and applying them in the other order leaves
  \<open>2 ^ 53\<close>.
\<close>

theorem applyEffects_order_matters:
  "map_of (applyEffects (applyEffects [([120], Num (Fin 9007199254740992))]
              (Some [([120], Fin 1)])) (Some [([120], Fin (- 1))])) [120]
     = Some (Num (Fin 9007199254740991))
   \<and> map_of (applyEffects (applyEffects [([120], Num (Fin 9007199254740992))]
              (Some [([120], Fin (- 1))])) (Some [([120], Fin 1)])) [120]
     = Some (Num (Fin 9007199254740992))"
  by code_simp

section \<open>Properties of the replication handlers\<close>


lemma shared_update_same: "shared c = v \<Longrightarrow> c\<lparr>shared := v\<rparr> = c"
  by (cases c) simp

text \<open>
  C1. For a client that holds the session state \<open>local\<close> and for every payload \<open>p\<close> of
  \<^verbatim>\<open>state:update\<close>: when the version of \<open>p\<close> is greater than the version of \<open>local\<close>
  the handler stores \<open>p\<close> as the local state and changes nothing else; otherwise the whole
  client is left as it is. The handler sends nothing.
\<close>

theorem state_update_adopts_iff_newer:
  assumes "shared c = Some local"
  shows "on_state_update p c =
           (if version p > version local then (c\<lparr>shared := Some p\<rparr>, []) else (c, []))"
  using assms by (simp add: on_state_update_def adopt_def shared_update_same)

theorem state_update_adopts_iff_newer_witness:
  "shared example_client = Some example_state
   \<and> on_state_update (example_state\<lparr>version := 4\<rparr>) example_client
       = (example_client\<lparr>shared := Some (example_state\<lparr>version := 4\<rparr>)\<rparr>, [])
   \<and> on_state_update (example_state\<lparr>sceneId := [101], version := 3\<rparr>) example_client
       = (example_client, [])"
proof -
  have s: "shared example_client = Some example_state"
    by (simp add: example_client_def)
  show ?thesis
    using s state_update_adopts_iff_newer [OF s, of "example_state\<lparr>version := 4\<rparr>"]
      state_update_adopts_iff_newer [OF s, of "example_state\<lparr>sceneId := [101], version := 3\<rparr>"]
    by (simp add: example_state_def)
qed

text \<open>
  C9. A client that holds no session state adopts the payload of any \<^verbatim>\<open>state:update\<close>,
  whatever its version.
\<close>

theorem state_update_without_local_state:
  assumes "shared c = None"
  shows "on_state_update p c = (c\<lparr>shared := Some p\<rparr>, [])"
  using assms by (simp add: on_state_update_def adopt_def)

theorem state_update_without_local_state_witness:
  "shared (example_client\<lparr>shared := None\<rparr>) = None
   \<and> on_state_update (example_state\<lparr>version := - 7\<rparr>) (example_client\<lparr>shared := None\<rparr>)
       = (example_client\<lparr>shared := Some (example_state\<lparr>version := - 7\<rparr>)\<rparr>, [])"
proof -
  have s: "shared (example_client\<lparr>shared := None\<rparr>) = None"
    by simp
  show ?thesis
    using s state_update_without_local_state [OF s, of "example_state\<lparr>version := - 7\<rparr>"]
    by simp
qed



section \<open>Properties of the narrative log\<close>

lemma merge_add_present:
  "list_ex (\<lambda>x. m_id x = m_id m) (merge_add prev m)"
  by (auto simp: merge_add_def append_sorted_def list_ex_iff)

lemma merge_add_again: "merge_add (merge_add prev m) m = merge_add prev m"
  using merge_add_present [of m prev] by (simp add: merge_add_def [of "merge_add prev m"])

lemma length_filter_mset:
  "length (filter P xs) = size (filter_mset P (mset xs))"
  by (induction xs) simp_all

lemma count_id_append_sorted:
  "length (filter (\<lambda>x. m_id x = i) (append_sorted prev m))
     = length (filter (\<lambda>x. m_id x = i) prev) + (if m_id m = i then 1 else 0)"
  by (simp add: length_filter_mset append_sorted_def)

lemma merge_update_absent:
  "\<forall>x \<in> set xs. m_id x \<noteq> m_id m \<Longrightarrow> merge_update xs m = xs"
  by (induction xs) (simp_all add: merge_update_def)

text \<open>
  C8. The handler of a received \<^verbatim>\<open>msg:add\<close> sends nothing and changes the log only.
  When an entry with the identifier of the message is present the client is left as it
  is; when none is present the new log holds the entries of the log and the message, is
  sorted by timestamp and keeps the order of entries with equal timestamps, and handling
  the same message a second time leaves exactly one entry with that identifier. Handling
  a message twice always equals handling it once.
\<close>

theorem msg_add_idempotent:
  "snd (handle (Received (MsgAdd m)) c) = []
   \<and> fst (handle (Received (MsgAdd m)) c)
       = c\<lparr>logs := logs (fst (handle (Received (MsgAdd m)) c))\<rparr>
   \<and> (list_ex (\<lambda>x. m_id x = m_id m) (logs c) \<longrightarrow> fst (handle (Received (MsgAdd m)) c) = c)
   \<and> (\<not> list_ex (\<lambda>x. m_id x = m_id m) (logs c) \<longrightarrow>
        mset (logs (fst (handle (Received (MsgAdd m)) c))) = add_mset m (mset (logs c))
        \<and> sorted (map m_ts (logs (fst (handle (Received (MsgAdd m)) c))))
        \<and> filter (\<lambda>x. m_ts x = t) (logs (fst (handle (Received (MsgAdd m)) c)))
            = filter (\<lambda>x. m_ts x = t) (logs c @ [m])
        \<and> length (filter (\<lambda>x. m_id x = m_id m)
             (logs (fst (handle (Received (MsgAdd m)) (fst (handle (Received (MsgAdd m)) c))))))
            = 1)
   \<and> handle (Received (MsgAdd m)) (fst (handle (Received (MsgAdd m)) c))
       = handle (Received (MsgAdd m)) c"
proof (intro conjI impI)
  show "snd (handle (Received (MsgAdd m)) c) = []"
    by (simp add: on_msg_add_def)
next
  show "fst (handle (Received (MsgAdd m)) c)
       = c\<lparr>logs := logs (fst (handle (Received (MsgAdd m)) c))\<rparr>"
    by (simp add: on_msg_add_def)
next
  assume "list_ex (\<lambda>x. m_id x = m_id m) (logs c)"
  then show "fst (handle (Received (MsgAdd m)) c) = c"
    by (simp add: on_msg_add_def merge_add_def)
next
  assume absent: "\<not> list_ex (\<lambda>x. m_id x = m_id m) (logs c)"
  then have eq: "merge_add (logs c) m = append_sorted (logs c) m"
    by (simp add: merge_add_def)
  have after: "logs (fst (handle (Received (MsgAdd m)) c)) = append_sorted (logs c) m"
    by (simp add: on_msg_add_def eq)
  show "mset (logs (fst (handle (Received (MsgAdd m)) c))) = add_mset m (mset (logs c))"
    unfolding after by (simp add: append_sorted_def)
  show "sorted (map m_ts (logs (fst (handle (Received (MsgAdd m)) c))))"
    unfolding after by (simp add: append_sorted_def)
  show "filter (\<lambda>x. m_ts x = t) (logs (fst (handle (Received (MsgAdd m)) c)))
            = filter (\<lambda>x. m_ts x = t) (logs c @ [m])"
    unfolding after append_sorted_def by (rule sort_key_stable)
  from absent have none: "filter (\<lambda>x. m_id x = m_id m) (logs c) = []"
    by (auto simp: list_ex_iff filter_empty_conv)
  have "logs (fst (handle (Received (MsgAdd m)) (fst (handle (Received (MsgAdd m)) c))))
          = merge_add (merge_add (logs c) m) m"
    by (simp add: on_msg_add_def)
  also have "\<dots> = merge_add (logs c) m"
    by (rule merge_add_again)
  also have "\<dots> = append_sorted (logs c) m"
    by (rule eq)
  finally show "length (filter (\<lambda>x. m_id x = m_id m)
             (logs (fst (handle (Received (MsgAdd m)) (fst (handle (Received (MsgAdd m)) c))))))
            = 1"
    using none by (simp add: count_id_append_sorted)
next
  show "handle (Received (MsgAdd m)) (fst (handle (Received (MsgAdd m)) c))
       = handle (Received (MsgAdd m)) c"
    by (simp add: on_msg_add_def merge_add_again)
qed

theorem msg_add_idempotent_witness:
  "\<not> list_ex (\<lambda>x. m_id x = m_id (example_message\<lparr>m_id := [50], m_ts := 5\<rparr>)) (logs example_client)
   \<and> mset (logs (fst (handle (Received (MsgAdd (example_message\<lparr>m_id := [50], m_ts := 5\<rparr>)))
          example_client)))
       = add_mset (example_message\<lparr>m_id := [50], m_ts := 5\<rparr>) (mset (logs example_client))
   \<and> sorted (map m_ts (logs (fst (handle
          (Received (MsgAdd (example_message\<lparr>m_id := [50], m_ts := 5\<rparr>))) example_client))))
   \<and> length (filter (\<lambda>x. m_id x = m_id (example_message\<lparr>m_id := [50], m_ts := 5\<rparr>))
        (logs (fst (handle (Received (MsgAdd (example_message\<lparr>m_id := [50], m_ts := 5\<rparr>)))
           (fst (handle (Received (MsgAdd (example_message\<lparr>m_id := [50], m_ts := 5\<rparr>)))
              example_client)))))) = 1
   \<and> list_ex (\<lambda>x. m_id x = m_id example_message) (logs example_client)
   \<and> fst (handle (Received (MsgAdd example_message)) example_client) = example_client"
proof -
  have a: "\<not> list_ex (\<lambda>x. m_id x = m_id (example_message\<lparr>m_id := [50], m_ts := 5\<rparr>))
      (logs example_client)"
    by (simp add: example_message_def example_client_def)
  have b: "list_ex (\<lambda>x. m_id x = m_id example_message) (logs example_client)"
    by (simp add: example_client_def)
  show ?thesis
    using a b
      msg_add_idempotent [of "example_message\<lparr>m_id := [50], m_ts := 5\<rparr>" example_client 5]
      msg_add_idempotent [of example_message example_client 5]
    by blast
qed

text \<open>
  C10. The handler of a received \<^verbatim>\<open>msg:update\<close> sends nothing and changes the log only.
  When no entry has the identifier of the message the client is left as it is, so no
  entry is created; in general the log keeps its length, every entry with that identifier
  becomes the payload with \<open>edited\<close> set, and every other entry stays as it is.
\<close>

theorem msg_update_replaces:
  "snd (handle (Received (MsgUpdate m)) c) = []
   \<and> fst (handle (Received (MsgUpdate m)) c)
       = c\<lparr>logs := logs (fst (handle (Received (MsgUpdate m)) c))\<rparr>
   \<and> (\<not> list_ex (\<lambda>x. m_id x = m_id m) (logs c)
        \<longrightarrow> fst (handle (Received (MsgUpdate m)) c) = c)
   \<and> length (logs (fst (handle (Received (MsgUpdate m)) c))) = length (logs c)
   \<and> (\<forall>i < length (logs c).
        logs (fst (handle (Received (MsgUpdate m)) c)) ! i
          = (if m_id (logs c ! i) = m_id m then m\<lparr>m_edited := Some True\<rparr> else logs c ! i))"
proof (intro conjI impI allI)
  show "snd (handle (Received (MsgUpdate m)) c) = []"
    by (simp add: on_msg_update_def)
next
  show "fst (handle (Received (MsgUpdate m)) c)
       = c\<lparr>logs := logs (fst (handle (Received (MsgUpdate m)) c))\<rparr>"
    by (simp add: on_msg_update_def)
next
  assume "\<not> list_ex (\<lambda>x. m_id x = m_id m) (logs c)"
  then have "\<forall>x \<in> set (logs c). m_id x \<noteq> m_id m"
    by (simp add: list_ex_iff)
  then have "merge_update (logs c) m = logs c"
    by (rule merge_update_absent)
  then show "fst (handle (Received (MsgUpdate m)) c) = c"
    by (simp add: on_msg_update_def)
next
  show "length (logs (fst (handle (Received (MsgUpdate m)) c))) = length (logs c)"
    by (simp add: on_msg_update_def merge_update_def)
next
  fix i
  assume "i < length (logs c)"
  then show "logs (fst (handle (Received (MsgUpdate m)) c)) ! i
          = (if m_id (logs c ! i) = m_id m then m\<lparr>m_edited := Some True\<rparr> else logs c ! i)"
    by (simp add: on_msg_update_def merge_update_def)
qed

theorem msg_update_replaces_witness:
  "\<not> list_ex (\<lambda>x. m_id x = m_id (example_message\<lparr>m_id := [51]\<rparr>)) (logs example_client)
   \<and> fst (handle (Received (MsgUpdate (example_message\<lparr>m_id := [51]\<rparr>))) example_client)
       = example_client
   \<and> (0 :: nat) < length (logs example_client)
   \<and> logs (fst (handle (Received (MsgUpdate (example_message\<lparr>m_text := [33]\<rparr>)))
         example_client)) ! 0
       = example_message\<lparr>m_text := [33], m_edited := Some True\<rparr>"
proof -
  have a: "\<not> list_ex (\<lambda>x. m_id x = m_id (example_message\<lparr>m_id := [51]\<rparr>)) (logs example_client)"
    by (simp add: example_message_def example_client_def)
  have b: "(0 :: nat) < length (logs example_client)"
    by (simp add: example_client_def)
  have c: "logs example_client ! 0 = example_message"
    by (simp add: example_client_def)
  from msg_update_replaces [of "example_message\<lparr>m_id := [51]\<rparr>" example_client] a
  have e: "fst (handle (Received (MsgUpdate (example_message\<lparr>m_id := [51]\<rparr>))) example_client)
       = example_client"
    by blast
  from msg_update_replaces [of "example_message\<lparr>m_text := [33]\<rparr>" example_client]
  have "\<forall>i < length (logs example_client).
        logs (fst (handle (Received (MsgUpdate (example_message\<lparr>m_text := [33]\<rparr>)))
            example_client)) ! i
          = (if m_id (logs example_client ! i) = m_id (example_message\<lparr>m_text := [33]\<rparr>)
             then example_message\<lparr>m_text := [33]\<rparr>\<lparr>m_edited := Some True\<rparr>
             else logs example_client ! i)"
    by blast
  with b have "logs (fst (handle (Received (MsgUpdate (example_message\<lparr>m_text := [33]\<rparr>)))
            example_client)) ! 0
          = (if m_id (logs example_client ! 0) = m_id (example_message\<lparr>m_text := [33]\<rparr>)
             then example_message\<lparr>m_text := [33]\<rparr>\<lparr>m_edited := Some True\<rparr>
             else logs example_client ! 0)"
    by blast
  then have g: "logs (fst (handle (Received (MsgUpdate (example_message\<lparr>m_text := [33]\<rparr>)))
         example_client)) ! 0
       = example_message\<lparr>m_text := [33], m_edited := Some True\<rparr>"
    by (simp only: c) simp
  from a e b g show ?thesis
    by (intro conjI)
qed


section \<open>Properties of turn resolution\<close>

lemma double_sum_small: "\<bar>v\<bar> < 2 ^ 53 \<Longrightarrow> double_sum v 1 = v + 1"
proof -
  assume "\<bar>v\<bar> < 2 ^ 53"
  then have "\<bar>v + 1\<bar> \<le> 2 ^ 53" by linarith
  then show ?thesis
    by (simp only: double_sum_def round53_exact)
qed

lemma double_sum_tie: "double_sum 9007199254740992 1 = 9007199254740992"
  by code_simp

text \<open>
  C2, amended. When a client that holds the session state \<open>local\<close>, a scenario, an open
  composer with the choice \<open>ch\<close> and a channel resolves the turn, the new state has the
  scene that the choice leads to, the variables of \<open>local\<close> with the effects of the choice
  applied, the opposite turn, and as its version the sum, in the arithmetic of doubles, of
  the version of \<open>local\<close> and one: the exact sum rounded to a double, which is the
  successor whenever the magnitude of the version is below \<open>2 ^ 53\<close>. The client stores
  the new state as its state and in its ref, and broadcasts it as \<^verbatim>\<open>state:update\<close>,
  after the \<^verbatim>\<open>msg:add\<close> of the narrative text when that text is not empty. This holds
  whatever the role of the client; the user interface offers the action only to the role
  that holds the turn.
\<close>

theorem turn_resolution:
  assumes "shared c = Some local" and "scenario c = Some sc"
    and "composerChoice c = Some ch" and "channelRef c"
  shows "shared (fst (sendNarrativeAndAdvance newId now c))
           = Some \<lparr>sceneId = c_next ch, vars = applyEffects (vars local) (c_effects ch),
                   turn = opposite (turn local), version = double_sum (version local) 1\<rparr>
         \<and> sharedRef (fst (sendNarrativeAndAdvance newId now c))
           = Some \<lparr>sceneId = c_next ch, vars = applyEffects (vars local) (c_effects ch),
                   turn = opposite (turn local), version = double_sum (version local) 1\<rparr>
         \<and> snd (sendNarrativeAndAdvance newId now c)
           = (if trim (composerText c) = [] then []
              else [Send (MsgAdd \<lparr>m_id = newId, m_role = role c, m_name = displayName c,
                      m_sceneId = sceneId local, m_choiceText = c_text ch,
                      m_text = trim (composerText c), m_ts = now, m_edited = None\<rparr>)])
             @ [Send (StateUpdate \<lparr>sceneId = c_next ch,
                   vars = applyEffects (vars local) (c_effects ch),
                   turn = opposite (turn local), version = double_sum (version local) 1\<rparr>)]
         \<and> double_sum (version local) 1 = round53 (version local + 1)
         \<and> (\<bar>version local\<bar> < 2 ^ 53 \<longrightarrow> double_sum (version local) 1 = version local + 1)"
proof -
  have t: "(if turn local = P1 then P2 else P1) = opposite (turn local)"
    by (cases "turn local") simp_all
  have s: "\<bar>version local\<bar> < 2 ^ 53 \<longrightarrow> double_sum (version local) 1 = version local + 1"
    using double_sum_small by blast
  have r: "double_sum (version local) 1 = round53 (version local + 1)"
    by (simp only: double_sum_def)
  have main: "shared (fst (sendNarrativeAndAdvance newId now c))
           = Some \<lparr>sceneId = c_next ch, vars = applyEffects (vars local) (c_effects ch),
                   turn = opposite (turn local), version = double_sum (version local) 1\<rparr>
         \<and> sharedRef (fst (sendNarrativeAndAdvance newId now c))
           = Some \<lparr>sceneId = c_next ch, vars = applyEffects (vars local) (c_effects ch),
                   turn = opposite (turn local), version = double_sum (version local) 1\<rparr>
         \<and> snd (sendNarrativeAndAdvance newId now c)
           = (if trim (composerText c) = [] then []
              else [Send (MsgAdd \<lparr>m_id = newId, m_role = role c, m_name = displayName c,
                      m_sceneId = sceneId local, m_choiceText = c_text ch,
                      m_text = trim (composerText c), m_ts = now, m_edited = None\<rparr>)])
             @ [Send (StateUpdate \<lparr>sceneId = c_next ch,
                   vars = applyEffects (vars local) (c_effects ch),
                   turn = opposite (turn local), version = double_sum (version local) 1\<rparr>)]"
    using assms
    by (simp add: sendNarrativeAndAdvance_def Let_def cancelComposer_def send_via_ref_def t)
  from main r s show ?thesis by blast
qed

theorem turn_resolution_witness:
  "shared example_client = Some example_state
   \<and> scenario example_client = Some example_scenario
   \<and> composerChoice example_client = Some example_choice
   \<and> channelRef example_client
   \<and> \<bar>version example_state\<bar> < 2 ^ 53
   \<and> shared (fst (sendNarrativeAndAdvance [50] 20 example_client))
       = Some \<lparr>sceneId = [101], vars = [([120], Num (Fin 3))], turn = P2, version = 4\<rparr>
   \<and> sharedRef (fst (sendNarrativeAndAdvance [50] 20 example_client))
       = Some \<lparr>sceneId = [101], vars = [([120], Num (Fin 3))], turn = P2, version = 4\<rparr>
   \<and> snd (sendNarrativeAndAdvance [50] 20 example_client)
       = [Send (MsgAdd \<lparr>m_id = [50], m_role = P1, m_name = [65], m_sceneId = [115],
                  m_choiceText = [71, 111], m_text = [111, 107], m_ts = 20, m_edited = None\<rparr>),
          Send (StateUpdate
            \<lparr>sceneId = [101], vars = [([120], Num (Fin 3))], turn = P2, version = 4\<rparr>)]"
proof -
  have a: "shared example_client = Some example_state"
    and b: "scenario example_client = Some example_scenario"
    and c: "composerChoice example_client = Some example_choice"
    and d: "channelRef example_client"
    by (simp_all add: example_client_def)
  have v: "\<bar>version example_state\<bar> < 2 ^ 53"
    by (simp add: example_state_def)
  have e: "trim (composerText example_client) = [111, 107]"
    by (simp add: example_client_def trim_def is_space_def)
  have f: "applyEffects (vars example_state) (c_effects example_choice) = [([120], Num (Fin 3))]"
    by code_simp
  have g: "role example_client = P1" "displayName example_client = [65]"
    "sceneId example_state = [115]" "c_text example_choice = [71, 111]"
    "c_next example_choice = [101]" "turn example_state = P1"
    by (simp_all add: example_client_def example_state_def example_choice_def)
  from turn_resolution [OF a b c d, of "[50]" 20] v
  have h: "double_sum (version example_state) 1 = version example_state + 1"
    by blast
  have i: "version example_state + 1 = 4"
    by (simp add: example_state_def)
  show ?thesis
    using turn_resolution [OF a b c d, of "[50]" 20] v
    by (simp only: a b c d e f g h i) simp
qed

text \<open>
  C2, as stated, fails: a client whose state has the version \<open>2 ^ 53\<close>, which it adopts
  from a \<^verbatim>\<open>state:update\<close> like any other, resolves the turn into a state of the same
  version \<open>2 ^ 53\<close>, not \<open>2 ^ 53 + 1\<close>.
\<close>

theorem turn_resolution_saturates:
  "local_version (example_client\<lparr>shared := Some (example_state\<lparr>version := 9007199254740992\<rparr>)\<rparr>)
     = Some 9007199254740992
   \<and> local_version (fst (sendNarrativeAndAdvance [50] 20
        (example_client\<lparr>shared := Some (example_state\<lparr>version := 9007199254740992\<rparr>)\<rparr>)))
     = Some 9007199254740992"
  by (simp add: local_version_def sendNarrativeAndAdvance_def example_client_def Let_def
      cancelComposer_def double_sum_tie)

section \<open>The operations that change the version\<close>

lemma act_other_keeps_shared:
  assumes "\<forall>i t. a \<noteq> SendNarrativeAndAdvance i t" and "a \<noteq> Restart"
  shows "shared (fst (act a c)) = shared c"
proof (cases a)
  case (OpenComposer ch)
  then show ?thesis by (simp add: openComposer_def)
next
  case CancelComposer
  then show ?thesis by (simp add: cancelComposer_def)
next
  case (SetComposerText t)
  then show ?thesis by simp
next
  case (SendNarrativeAndAdvance i t)
  with assms show ?thesis by simp
next
  case (StartEditMessage i)
  then show ?thesis by (simp add: startEditMessage_def)
next
  case (SetEditingText t)
  then show ?thesis by simp
next
  case CancelEdit
  then show ?thesis by simp
next
  case SaveEditMessage
  then show ?thesis
    by (simp add: saveEditMessage_def Let_def split: option.splits)
next
  case Restart
  with assms show ?thesis by simp
qed

lemma restart_version:
  assumes "scenario c \<noteq> None"
  shows "local_version (fst (act Restart c))
           = Some (double_sum (case local_version c of None \<Rightarrow> 0 | Some v \<Rightarrow> v) 1)"
  using assms
  by (cases "shared c") (auto simp: restart_def local_version_def Let_def)

lemma send_version:
  assumes "shared c \<noteq> None" and "scenario c \<noteq> None" and "composerChoice c \<noteq> None"
  shows "local_version (fst (act (SendNarrativeAndAdvance i t) c))
           = map_option (\<lambda>v. double_sum v 1) (local_version c)"
  using assms
  by (auto simp: sendNarrativeAndAdvance_def local_version_def Let_def cancelComposer_def)

lemma send_disabled:
  assumes "shared c = None \<or> scenario c = None \<or> composerChoice c = None"
  shows "act (SendNarrativeAndAdvance i t) c = (c, [])"
  using assms
  by (auto simp: sendNarrativeAndAdvance_def split: option.splits)

lemma handle_other_keeps_shared:
  assumes "\<forall>p. cb \<noteq> Received (StateUpdate p)" and "\<forall>b. cb \<noteq> Subscribed b"
  shows "shared (fst (handle cb c)) = shared c"
proof (cases cb)
  case (Received b)
  with assms show ?thesis
    by (cases b)
      (simp_all add: on_state_request_def on_msg_add_def on_msg_update_def split: option.splits)
next
  case (Subscribed ok)
  with assms(2) show ?thesis by blast
next
  case (PresenceSync st)
  then show ?thesis by (simp add: on_presence_sync_def Let_def)
next
  case DebounceFired
  then show ?thesis by (simp add: on_debounce_def split: option.splits)
next
  case Rendered
  then show ?thesis by (simp add: on_render_def)
next
  case (ScenarioLoaded sc)
  then show ?thesis by (simp add: on_scenario_loaded_def)
qed

lemma subscribed_shared:
  "shared (fst (handle (Subscribed ok) c)) = shared c
   \<or> (role c = P1 \<and> sharedRef c = None
       \<and> local_version (fst (handle (Subscribed ok) c)) = Some 1)"
  by (simp add: on_subscribed_def local_version_def Let_def split: option.splits)

lemma received_update_shared:
  "shared (fst (handle (Received (StateUpdate p)) c)) = shared c
   \<or> shared (fst (handle (Received (StateUpdate p)) c)) = Some p"
  by (simp add: on_state_update_def adopt_def split: option.splits)

text \<open>
  C3, as stated, fails: the restart button of an ending, pressed by the second player in a
  room at version 4, is not a turn resolution and stores and broadcasts a state of
  version 5.
\<close>

theorem restart_increments_version:
  "restart_rendered ending_client
   \<and> local_version ending_client = Some 4
   \<and> local_version (fst (act Restart ending_client)) = Some 5
   \<and> snd (act Restart ending_client)
       = [Send (StateUpdate \<lparr>sceneId = [115], vars = [], turn = P1, version = 5\<rparr>)]"
  by (simp add: restart_rendered_def room_rendered_def currentScene_def ending_client_def
      example_scenario_def local_version_def restart_def send_via_ref_def Let_def
      double_sum_def round53_def)

text \<open>
  C3, amended. Turn resolution and the restart of an ending are the user actions that
  change the version, each to the sum, in the arithmetic of doubles, of the local version
  and one (the restart counts an absent state as version 0): the exact sum rounded to a
  double, which is the successor whenever the magnitude of the version is below
  \<open>2 ^ 53\<close>. Turn resolution without a state, a scenario or an open composer does nothing.
  Every other user action leaves the session state unchanged. Of the callbacks, only the
  receipt of \<^verbatim>\<open>state:update\<close>, which keeps the state or adopts the payload, and the
  subscription of the first player without a state in its ref, which creates version 1,
  change the session state.
\<close>

theorem version_increment_paths:
  "((\<forall>i t. a \<noteq> SendNarrativeAndAdvance i t) \<and> a \<noteq> Restart
      \<longrightarrow> shared (fst (act a c)) = shared c)
   \<and> (scenario c \<noteq> None
      \<longrightarrow> local_version (fst (act Restart c))
            = Some (double_sum (case local_version c of None \<Rightarrow> 0 | Some v \<Rightarrow> v) 1))
   \<and> (shared c \<noteq> None \<and> scenario c \<noteq> None \<and> composerChoice c \<noteq> None
      \<longrightarrow> local_version (fst (act (SendNarrativeAndAdvance i t) c))
            = map_option (\<lambda>v. double_sum v 1) (local_version c))
   \<and> double_sum v 1 = round53 (v + 1)
   \<and> (\<bar>v\<bar> < 2 ^ 53 \<longrightarrow> double_sum v 1 = v + 1)
   \<and> (shared c = None \<or> scenario c = None \<or> composerChoice c = None
      \<longrightarrow> act (SendNarrativeAndAdvance i t) c = (c, []))
   \<and> ((\<forall>p. cb \<noteq> Received (StateUpdate p)) \<and> (\<forall>b. cb \<noteq> Subscribed b)
      \<longrightarrow> shared (fst (handle cb c)) = shared c)
   \<and> (shared (fst (handle (Subscribed ok) c)) = shared c
      \<or> (role c = P1 \<and> sharedRef c = None
          \<and> local_version (fst (handle (Subscribed ok) c)) = Some 1))
   \<and> (shared (fst (handle (Received (StateUpdate p)) c)) = shared c
      \<or> shared (fst (handle (Received (StateUpdate p)) c)) = Some p)"
  using act_other_keeps_shared [of a c] restart_version [of c] send_version [of c i t]
    send_disabled [of c i t] handle_other_keeps_shared [of cb c]
    subscribed_shared [of ok c] received_update_shared [of p c]
    double_sum_small [of v] double_sum_def [of v 1]
  by blast


theorem version_increment_paths_witness:
  "(\<forall>i t. CancelComposer \<noteq> SendNarrativeAndAdvance i t) \<and> CancelComposer \<noteq> Restart
   \<and> shared (fst (act CancelComposer example_client)) = shared example_client
   \<and> scenario example_client \<noteq> None
   \<and> local_version (fst (act Restart example_client)) = Some 4
   \<and> \<bar>3 :: int\<bar> < 2 ^ 53
   \<and> shared example_client \<noteq> None \<and> composerChoice example_client \<noteq> None
   \<and> local_version (fst (act (SendNarrativeAndAdvance [50] 20) example_client)) = Some 4
   \<and> (\<forall>p. Rendered \<noteq> Received (StateUpdate p)) \<and> (\<forall>b. Rendered \<noteq> Subscribed b)
   \<and> shared (fst (handle Rendered example_client)) = shared example_client"
proof -
  have a: "(\<forall>i t. CancelComposer \<noteq> SendNarrativeAndAdvance i t) \<and> CancelComposer \<noteq> Restart"
    by simp
  have b: "scenario example_client \<noteq> None" "shared example_client \<noteq> None"
    "composerChoice example_client \<noteq> None"
    by (simp_all add: example_client_def)
  have c: "(\<forall>p. Rendered \<noteq> Received (StateUpdate p)) \<and> (\<forall>b. Rendered \<noteq> Subscribed b)"
    by simp
  have d: "local_version example_client = Some 3"
    by (simp add: local_version_def example_client_def example_state_def)
  show ?thesis
    using a b c version_increment_paths [of CancelComposer example_client "[50]" 20 3 Rendered True
        example_state]
    by (simp add: d)
qed

section \<open>Properties of validation\<close>


lemma validateScenario_room_iff:
  "validateScenario_room d = Inr () \<longleftrightarrow>
     is_object d \<and> is_string (get_prop d [116, 105, 116, 108, 101])
     \<and> is_string (get_prop d [115, 116, 97, 114, 116])
     \<and> is_array (get_prop d [115, 99, 101, 110, 101, 115])"
  by (simp add: validateScenario_room_def)

lemma is_array_cases:
  "is_array v \<longleftrightarrow> (\<exists>ss. v = Some (JArr ss))"
  by (cases v rule: is_array.cases) simp_all

lemma is_string_cases:
  "is_string v \<longleftrightarrow> (\<exists>t. v = Some (JStr t))"
  by (cases v rule: is_string.cases) simp_all

lemma validateScenario_iff:
  "validateScenario d = Inr () \<longleftrightarrow>
     validateScenario_room d = Inr ()
     \<and> (\<exists>ss st. get_prop d [115, 99, 101, 110, 101, 115] = Some (JArr ss)
          \<and> get_prop d [115, 116, 97, 114, 116] = Some st \<and> some_id ss st = Inr True)"
proof (cases "validateScenario_room d")
  case (Inl e)
  then show ?thesis by (simp add: validateScenario_def)
next
  case (Inr u)
  then have ok: "validateScenario_room d = Inr ()" by simp
  then obtain ss t where ss: "get_prop d [115, 99, 101, 110, 101, 115] = Some (JArr ss)"
    and t: "get_prop d [115, 116, 97, 114, 116] = Some (JStr t)"
    unfolding validateScenario_room_iff is_array_cases is_string_cases by blast
  show ?thesis
    by (cases "some_id ss (JStr t)") (auto simp: validateScenario_def ok ss t)
qed

lemma some_id_found:
  "some_id ss v = Inr True \<Longrightarrow> \<exists>s \<in> set ss. get_prop s [105, 100] = Some v"
  by (induction ss v rule: some_id.induct) (auto split: if_splits)

lemma some_id_scene_json:
  "some_id (map scene_json scs) (JStr st) = Inr (st \<in> scene_id ` set scs)"
proof (induction scs)
  case Nil
  then show ?case by simp
next
  case (Cons s scs)
  then show ?case by (cases s) auto
qed

lemma validateScenario_room_scenario_json:
  "validateScenario_room (scenario_json sc) = Inr ()"
  by (simp add: validateScenario_room_def scenario_json_def)

lemma validateScenario_scenario_json:
  "validateScenario (scenario_json sc) =
     (if start sc \<in> scene_id ` set (scenes sc) then Inr () else Inl NoStartScene)"
  by (simp add: validateScenario_def validateScenario_room_scenario_json)
     (simp add: scenario_json_def some_id_scene_json)

lemma validateScenario_empty_scenes:
  assumes "validateScenario_room d = Inr ()"
    and "get_prop d [115, 99, 101, 110, 101, 115] = Some (JArr [])"
  shows "validateScenario d = Inl NoStartScene"
proof -
  from assms(1) obtain t where "get_prop d [115, 116, 97, 114, 116] = Some (JStr t)"
    unfolding validateScenario_room_iff is_string_cases by blast
  with assms show ?thesis
    by (simp add: validateScenario_def)
qed

text \<open>
  C7, as stated, fails: the validator of the single-player page and of the lobby accepts a
  document with an empty title and an empty start whose only scene has the empty
  identifier; the validator of the room loader accepts a document with an empty title, an
  empty start and no scenes; and the script parser, given the file \<^verbatim>\<open>.txt\<close> with the
  text \<^verbatim>\<open>#scene  x\<close>, returns a scenario with an empty title and an empty start.
\<close>

theorem empty_title_and_start_accepted:
  "validateScenario
     (JObj [([116, 105, 116, 108, 101], JStr []), ([115, 116, 97, 114, 116], JStr []),
            ([115, 99, 101, 110, 101, 115], JArr [JObj [([105, 100], JStr [])]])]) = Inr ()
   \<and> validateScenario_room
     (JObj [([116, 105, 116, 108, 101], JStr []), ([115, 116, 97, 114, 116], JStr []),
            ([115, 99, 101, 110, 101, 115], JArr [])]) = Inr ()
   \<and> parseTxtToScenario [46, 116, 120, 116] [35, 115, 99, 101, 110, 101, 32, 32, 120]
       = Inr \<lparr>title = [], start = [], scenes = [Scene [] [] []]\<rparr>"
  by (simp add: validateScenario_def validateScenario_room_def parseTxtToScenario_def
      parse_scenes_def scenes_of_lines_def step_line_def trim_def is_space_def second_field_def
      scenario_json_def Let_def is_word_def is_letter_def)

text \<open>
  C7, amended. The room loader accepts a document exactly when it is an object or an array
  whose title is a string, whose start is a string and whose scenes are an array; the text
  of the title and of the start may be empty. The validator of the single-player page and
  of the lobby accepts exactly the documents that the room loader accepts and in which the
  search through the scenes finds an identifier equal to the start, some scene then having
  that identifier; so it rejects every document without scenes, which the room loader
  accepts. For a document of the shape of a scenario: the room loader accepts it, and the
  other validator accepts it exactly when some scene has the start as its identifier.
\<close>

theorem validation_checks:
  "(validateScenario_room d = Inr () \<longleftrightarrow>
      is_object d \<and> is_string (get_prop d [116, 105, 116, 108, 101])
      \<and> is_string (get_prop d [115, 116, 97, 114, 116])
      \<and> is_array (get_prop d [115, 99, 101, 110, 101, 115]))
   \<and> (validateScenario d = Inr () \<longleftrightarrow>
      validateScenario_room d = Inr ()
      \<and> (\<exists>ss st. get_prop d [115, 99, 101, 110, 101, 115] = Some (JArr ss)
           \<and> get_prop d [115, 116, 97, 114, 116] = Some st \<and> some_id ss st = Inr True))
   \<and> (some_id ss v = Inr True \<longrightarrow> (\<exists>s \<in> set ss. get_prop s [105, 100] = Some v))
   \<and> (validateScenario_room d = Inr () \<and> get_prop d [115, 99, 101, 110, 101, 115] = Some (JArr [])
      \<longrightarrow> validateScenario d = Inl NoStartScene)
   \<and> validateScenario_room (scenario_json sc) = Inr ()
   \<and> validateScenario (scenario_json sc)
       = (if start sc \<in> scene_id ` set (scenes sc) then Inr () else Inl NoStartScene)"
  using validateScenario_room_iff [of d] validateScenario_iff [of d] some_id_found [of ss v]
    validateScenario_empty_scenes [of d] validateScenario_room_scenario_json [of sc]
    validateScenario_scenario_json [of sc]
  by blast

theorem validation_checks_witness:
  "some_id [JObj [([105, 100], JStr [97])]] (JStr [97]) = Inr True
   \<and> (\<exists>s \<in> set [JObj [([105, 100], JStr [97])]]. get_prop s [105, 100] = Some (JStr [97]))
   \<and> validateScenario_room (JObj [([116, 105, 116, 108, 101], JStr [116]),
        ([115, 116, 97, 114, 116], JStr [97]), ([115, 99, 101, 110, 101, 115], JArr [])]) = Inr ()
   \<and> get_prop (JObj [([116, 105, 116, 108, 101], JStr [116]),
        ([115, 116, 97, 114, 116], JStr [97]), ([115, 99, 101, 110, 101, 115], JArr [])])
        [115, 99, 101, 110, 101, 115] = Some (JArr [])
   \<and> validateScenario (JObj [([116, 105, 116, 108, 101], JStr [116]),
        ([115, 116, 97, 114, 116], JStr [97]), ([115, 99, 101, 110, 101, 115], JArr [])])
       = Inl NoStartScene
   \<and> validateScenario (scenario_json example_scenario) = Inr ()
   \<and> validateScenario (scenario_json (example_scenario\<lparr>start := [122]\<rparr>)) = Inl NoStartScene"
proof -
  have a: "some_id [JObj [([105, 100], JStr [97])]] (JStr [97]) = Inr True"
    by simp
  have b: "validateScenario_room (JObj [([116, 105, 116, 108, 101], JStr [116]),
        ([115, 116, 97, 114, 116], JStr [97]), ([115, 99, 101, 110, 101, 115], JArr [])]) = Inr ()"
    by (simp add: validateScenario_room_def)
  have c: "get_prop (JObj [([116, 105, 116, 108, 101], JStr [116]),
        ([115, 116, 97, 114, 116], JStr [97]), ([115, 99, 101, 110, 101, 115], JArr [])])
        [115, 99, 101, 110, 101, 115] = Some (JArr [])"
    by simp
  have d: "start example_scenario \<in> scene_id ` set (scenes example_scenario)"
    "start (example_scenario\<lparr>start := [122]\<rparr>)
       \<notin> scene_id ` set (scenes (example_scenario\<lparr>start := [122]\<rparr>))"
    by (simp_all add: example_scenario_def)
  show ?thesis
    using a b c d
      validation_checks [of "JObj [([116, 105, 116, 108, 101], JStr [116]),
        ([115, 116, 97, 114, 116], JStr [97]), ([115, 99, 101, 110, 101, 115], JArr [])]"
        "[JObj [([105, 100], JStr [97])]]" "JStr [97]" example_scenario]
      validation_checks [of JNull "[]" JNull "example_scenario\<lparr>start := [122]\<rparr>"]
    by (simp only: simp_thms if_True if_False)
qed



section \<open>Properties of the script parser\<close>

text \<open>
  The tokens with a minus sign, with a plus sign and without a sign; the delta of a token;
  the delta that the finished effects hold for a variable other than a member of
  \<^verbatim>\<open>Object.prototype\<close>; and the lines with the marker of a choice, which add a choice when
  they match the pattern and change nothing when they do not.
\<close>

lemma takeWhile_prefix:
  "list_all P xs \<Longrightarrow> ys = [] \<or> \<not> P (hd ys) \<Longrightarrow> takeWhile P (xs @ ys) = xs"
  by (induction xs) (auto simp: takeWhile_eq_Nil_iff neq_Nil_conv)

lemma parse_effect_tokens:
  assumes "name \<noteq> []" and "list_all is_letter name" and "rest = [] \<or> \<not> is_letter (hd rest)"
  shows "parse_effect (45 # name @ rest) = Some (name, Fin (- 1))"
    and "parse_effect (43 # name @ rest) = Some (name, Fin 1)"
    and "parse_effect (name @ rest) = Some (name, Fin 1)"
proof -
  have tw: "takeWhile is_letter (name @ rest) = name"
    using assms(2,3) by (rule takeWhile_prefix)
  show "parse_effect (45 # name @ rest) = Some (name, Fin (- 1))"
    using assms(1) by (simp add: parse_effect_def tw)
  show "parse_effect (43 # name @ rest) = Some (name, Fin 1)"
    using assms(1) by (simp add: parse_effect_def tw)
  from assms(1,2) obtain c cs where n: "name = c # cs" and l: "is_letter c"
    by (cases name) simp_all
  from l have "c \<noteq> 43 \<and> c \<noteq> 45"
    by (auto simp: is_letter_def)
  then show "parse_effect (name @ rest) = Some (name, Fin 1)"
    using tw n by (simp add: parse_effect_def)
qed

lemma parse_effect_none:
  "takeWhile is_letter (if starts_with tok [43] \<or> starts_with tok [45] then drop 1 tok else tok) = []
   \<Longrightarrow> parse_effect tok = None"
  by (cases tok) (auto simp: parse_effect_def)

lemma parse_effect_delta:
  "parse_effect tok = Some (v, d) \<Longrightarrow> d = (if starts_with tok [45] then Fin (- 1) else Fin 1)"
  by (cases tok) (auto simp: parse_effect_def Let_def split: if_splits)

lemma map_of_add_token_other:
  "\<forall>d'. parse_effect u \<noteq> Some (v, d') \<Longrightarrow> map_of (add_token effs u) v = map_of effs v"
  by (cases "parse_effect u") (auto simp: add_token_def map_of_assign_other)

lemma map_of_add_token_same:
  "parse_effect tok = Some (v, d) \<Longrightarrow> \<not> is_proto_member v
     \<Longrightarrow> map_of (add_token effs tok) v = Some d"
  by (auto simp: add_token_def map_of_assign_same parse_effect_def)

lemma last_token_wins:
  assumes "parse_effect tok = Some (v, d)" and "\<not> is_proto_member v"
    and "\<forall>u \<in> set post. \<forall>d'. parse_effect u \<noteq> Some (v, d')"
  shows "map_of (foldl add_token acc (pre @ tok # post)) v = Some d"
  using assms(3)
proof (induction post rule: rev_induct)
  case Nil
  show ?case by (simp add: map_of_add_token_same [OF assms(1,2)])
next
  case (snoc u post)
  then have "map_of (foldl add_token acc (pre @ tok # post)) v = Some d"
    and "\<forall>d'. parse_effect u \<noteq> Some (v, d')"
    by simp_all
  then show ?case
    by (simp add: map_of_add_token_other flip: append_Cons append_assoc)
qed

lemma not_marker:
  "starts_with line [62] \<Longrightarrow>
     line \<noteq> [] \<and> \<not> starts_with line [35, 115, 99, 101, 110, 101, 32]
     \<and> \<not> starts_with line [35, 101, 110, 100, 105, 110, 103, 32]"
  by (cases line) auto

lemma unmatched_choice_line_dropped:
  assumes "starts_with (trim raw) [62]" and "choice_match (trim raw) = None"
  shows "step_line st raw = st"
proof -
  have "parse_choice (trim raw) = None"
    using assms(2) by (simp add: parse_choice_def)
  with not_marker [OF assms(1)] assms(1) show ?thesis
    by (simp add: step_line_def Let_def split: option.splits scene.splits)
qed

lemma matched_choice_line_added:
  assumes "starts_with (trim raw) [62]" and "parse_choice (trim raw) = Some ch"
  shows "step_line (scs, Some (Scene i b chs)) raw = (scs, Some (Scene i b (chs @ [ch])))"
  using not_marker [OF assms(1)] assms
  by (simp add: step_line_def Let_def)

text \<open>
  C6. The token \<^verbatim>\<open>-__proto__\<close> matches the pattern of a token, with the variable
  \<^verbatim>\<open>__proto__\<close> and the delta \<open>-1\<close>; yet the choice compiled from the line
  \<^verbatim>\<open>>a->b (-__proto__)\<close> has no effects, where the same line with the variable \<open>x\<close> has
  the delta \<open>-1\<close> for \<open>x\<close>; and the scene compiled from a script with that line holds the
  choice without effects.
\<close>

theorem proto_effect_lost:
  "parse_effect [45, 95, 95, 112, 114, 111, 116, 111, 95, 95]
     = Some ([95, 95, 112, 114, 111, 116, 111, 95, 95], Fin (- 1))
   \<and> parse_choice [62, 97, 45, 62, 98, 32, 40, 45, 95, 95, 112, 114, 111, 116, 111, 95, 95, 41]
     = Some \<lparr>c_text = [97], c_next = [98], c_effects = None\<rparr>
   \<and> parse_choice [62, 97, 45, 62, 98, 32, 40, 45, 120, 41]
     = Some \<lparr>c_text = [97], c_next = [98], c_effects = Some [([120], Fin (- 1))]\<rparr>
   \<and> parse_scenes [35, 115, 99, 101, 110, 101, 32, 115, 10,
        62, 97, 45, 62, 98, 32, 40, 45, 95, 95, 112, 114, 111, 116, 111, 95, 95, 41]
     = [Scene [115] [] [\<lparr>c_text = [97], c_next = [98], c_effects = None\<rparr>]]"
  by (simp add: parse_effect_def parse_choice_def choice_match_def arrow_target_def
      effects_group_def effect_tokens_def parse_effects_def add_token_def assign_def
      is_space_def is_line_terminator_def is_letter_def Let_def
      parse_scenes_def scenes_of_lines_def step_line_def trim_def second_field_def)

end
